theory Spec2Isabelle
  imports Complex_Main "HOL-Library.Sublist" "HOL-Library.Multiset" "HOL-Library.Product_Lexorder"
begin

section \<open>Data model of \<open>participant_solution.py\<close>\<close>

text \<open>
  A query profile is a Python dict and a database row is a pandas Series; both map a column
  name to a value, and the order of the query's keys is the order in which its loci are
  visited. Both are association lists from column name to the string \<open>str(value)\<close> that
  the source computes before it looks at a value. The database is the list of its rows in
  \<open>iterrows()\<close> order.

  A Python float is an IEEE 754 double: a finite value, an infinity or NaN, with every
  operation rounded to the nearest double, ties to even. The builtin \<open>float()\<close> is not code
  of the repository; it is the parameter \<open>pyfloat\<close> of every definition that calls it,
  \<open>None\<close> standing for the \<open>ValueError\<close> it raises. The counters are Python integers.
  One test on them is taken in exact arithmetic: \<open>identity_matches / compared > 0.80\<close>,
  which agrees with the comparison of doubles for every number of loci below \<open>10 ^ 15\<close>.
\<close>

datatype error = KeyError | ValueError | ZeroDivisionError

type_synonym profile = "(string \<times> string) list"

text \<open>\<open>d[k]\<close>, which raises \<open>KeyError\<close> on an absent key, and \<open>d.get(k, default)\<close>.\<close>

definition getitem :: "profile \<Rightarrow> string \<Rightarrow> error + string" where
  "getitem d k = (case map_of d k of None \<Rightarrow> Inl KeyError | Some v \<Rightarrow> Inr v)"

definition get_default :: "profile \<Rightarrow> string \<Rightarrow> string \<Rightarrow> string" where
  "get_default d k dflt = (case map_of d k of None \<Rightarrow> dflt | Some v \<Rightarrow> v)"

section \<open>Python floats\<close>

text \<open>\<open>Fin x\<close> is the finite double of value \<open>x\<close>. The two zeros are the one value \<open>Fin 0\<close>:
  they are equal, and the program takes no sign of a zero.\<close>

datatype double = Fin real | PInf | NInf | NaN

text \<open>Rounding to the nearest double. The last bit of the 53-bit significand of \<open>x\<close> has the
  weight \<open>2 powi ulp_exp x\<close>, which stops at \<open>2 powi - 1074\<close> in the subnormal range; \<open>x\<close> is
  rounded to a multiple of it, a tie to the even multiple, and a result from \<open>2 ^ 1024\<close> on
  is an infinity. A float literal denotes \<open>rnd\<close> of its decimal.\<close>

definition round_half_even :: "real \<Rightarrow> int" where
  "round_half_even y =
     (let n = \<lfloor>y\<rfloor>; r = y - of_int n
      in if r < 1 / 2 then n else if 1 / 2 < r then n + 1 else if even n then n else n + 1)"

definition ulp_exp :: "real \<Rightarrow> int" where
  "ulp_exp x = max (\<lfloor>log 2 \<bar>x\<bar>\<rfloor> - 52) (- 1074)"

definition rnd :: "real \<Rightarrow> double" where
  "rnd x =
     (if x = 0 then Fin 0
      else let u = 2 powi ulp_exp x; y = of_int (round_half_even (x / u)) * u
           in if 2 ^ 1024 \<le> \<bar>y\<bar> then (if 0 < x then PInf else NInf) else Fin y)"

text \<open>\<open>-a\<close>, \<open>abs(a)\<close>, \<open>a + b\<close>, \<open>a - b\<close> and \<open>a * b\<close>.\<close>

fun fneg :: "double \<Rightarrow> double" where
  "fneg (Fin x) = Fin (- x)"
| "fneg PInf = NInf"
| "fneg NInf = PInf"
| "fneg NaN = NaN"

fun fabs :: "double \<Rightarrow> double" where
  "fabs (Fin x) = Fin \<bar>x\<bar>"
| "fabs PInf = PInf"
| "fabs NInf = PInf"
| "fabs NaN = NaN"

fun fadd :: "double \<Rightarrow> double \<Rightarrow> double" where
  "fadd (Fin x) (Fin y) = rnd (x + y)"
| "fadd NaN b = NaN"
| "fadd a NaN = NaN"
| "fadd PInf NInf = NaN"
| "fadd NInf PInf = NaN"
| "fadd PInf b = PInf"
| "fadd a PInf = PInf"
| "fadd NInf b = NInf"
| "fadd a NInf = NInf"

definition fsub :: "double \<Rightarrow> double \<Rightarrow> double" where
  "fsub a b = fadd a (fneg b)"

fun sign :: "double \<Rightarrow> real" where
  "sign (Fin x) = sgn x"
| "sign PInf = 1"
| "sign NInf = - 1"
| "sign NaN = 0"

definition signed_inf :: "real \<Rightarrow> double" where
  "signed_inf s = (if s = 0 then NaN else if 0 < s then PInf else NInf)"

fun fmul :: "double \<Rightarrow> double \<Rightarrow> double" where
  "fmul (Fin x) (Fin y) = rnd (x * y)"
| "fmul NaN b = NaN"
| "fmul a NaN = NaN"
| "fmul a b = signed_inf (sign a * sign b)"

text \<open>\<open>a / b\<close>, which raises \<open>ZeroDivisionError\<close> when \<open>b\<close> is a zero and is the quotient of
  IEEE 754 otherwise.\<close>

fun fdiv :: "double \<Rightarrow> double \<Rightarrow> double" where
  "fdiv (Fin x) (Fin y) = rnd (x / y)"
| "fdiv NaN b = NaN"
| "fdiv a NaN = NaN"
| "fdiv (Fin x) b = Fin 0"
| "fdiv a (Fin y) = signed_inf (sign a * sgn y)"
| "fdiv a b = NaN"

definition py_div :: "double \<Rightarrow> double \<Rightarrow> error + double" where
  "py_div a b = (if b = Fin 0 then Inl ZeroDivisionError else Inr (fdiv a b))"

text \<open>\<open>a < b\<close>, \<open>a == b\<close> and \<open>a <= b\<close>: false whenever a side is NaN.\<close>

fun flt :: "double \<Rightarrow> double \<Rightarrow> bool" where
  "flt (Fin x) (Fin y) = (x < y)"
| "flt NaN b = False"
| "flt a NaN = False"
| "flt a NInf = False"
| "flt NInf b = True"
| "flt PInf b = False"
| "flt a PInf = True"

fun feq :: "double \<Rightarrow> double \<Rightarrow> bool" where
  "feq NaN b = False"
| "feq a NaN = False"
| "feq a b = (a = b)"

definition fle :: "double \<Rightarrow> double \<Rightarrow> bool" where
  "fle a b \<longleftrightarrow> flt a b \<or> feq a b"

text \<open>The place of a double in the order of \<open><\<close>: on the doubles other than NaN, \<open>rank\<close> is
  an order embedding into the lexicographic pairs. The sort keys of the program are never
  NaN (\<open>score_loci_clr\<close> below).\<close>

fun rank :: "double \<Rightarrow> int \<times> real" where
  "rank NInf = (- 1, 0)"
| "rank (Fin x) = (0, x)"
| "rank PInf = (1, 0)"
| "rank NaN = (2, 0)"

section \<open>Python sets of floats\<close>

text \<open>A set of floats is the list of its elements. Every call of \<open>float()\<close> makes a new
  object, so an element is found in a set when it is \<open>==\<close> to one of the set's elements;
  a NaN is found in no set and every NaN added to a set stays in it. The order of the list
  plays no part: the program asks a set for its length, for membership and for \<open>any\<close>.\<close>

definition py_in :: "double \<Rightarrow> double list \<Rightarrow> bool" where
  "py_in x s \<longleftrightarrow> (\<exists>y\<in>set s. feq x y)"

text \<open>\<open>set(xs)\<close>: the elements are added one by one.\<close>

definition py_set_add :: "double list \<Rightarrow> double \<Rightarrow> double list" where
  "py_set_add s x = (if py_in x s then s else s @ [x])"

definition py_set :: "double list \<Rightarrow> double list" where
  "py_set xs = foldl py_set_add [] xs"

text \<open>\<open>q == c\<close> (equal lengths, and every element of \<open>q\<close> found in \<open>c\<close>) and \<open>q & c\<close>.\<close>

definition py_set_eq :: "double list \<Rightarrow> double list \<Rightarrow> bool" where
  "py_set_eq q c \<longleftrightarrow> length q = length c \<and> (\<forall>x\<in>set q. py_in x c)"

definition py_intersection :: "double list \<Rightarrow> double list \<Rightarrow> double list" where
  "py_intersection q c = filter (\<lambda>x. py_in x c) q"

section \<open>Records of the program\<close>

text \<open>The local variables of one candidate comparison (lines 47 to 53); \<open>clr_acc\<close> is the
  local \<open>clr\<close>.\<close>

record tally =
  clr_acc :: double
  consistent :: int
  mutated :: int
  inconclusive :: int
  exclusions :: int
  identity_matches :: int
  compared :: int

definition init_tally :: tally where
  "init_tally = \<lparr>clr_acc = rnd 1.0, consistent = 0, mutated = 0, inconclusive = 0,
                  exclusions = 0, identity_matches = 0, compared = 0\<rparr>"

text \<open>The dict appended to \<open>candidates\<close> (lines 102 to 109).\<close>

record candidate =
  person_id :: string
  clr :: double
  posterior :: double
  consistent_loci :: int
  mutated_loci :: int
  inconclusive_loci :: int

text \<open>The dict appended to \<open>results\<close> by \<open>find_matches\<close> (lines 139 to 144).\<close>

record query_result =
  query_id :: string
  top_candidates :: "candidate list"

section \<open>Strings: \<open>strip\<close>, \<open>split\<close>, the missing markers\<close>

text \<open>A character is a code point below 256. Of these, \<open>str.strip()\<close> removes tab, line
  feed, vertical tab, form feed, carriage return, the four separators \<open>0x1c\<close> to \<open>0x1f\<close>,
  space, next line (\<open>0x85\<close>) and no-break space (\<open>0xa0\<close>).\<close>

definition is_space :: "char \<Rightarrow> bool" where
  "is_space c \<longleftrightarrow>
     (let n = (of_char c :: nat)
      in (9 \<le> n \<and> n \<le> 13) \<or> (28 \<le> n \<and> n \<le> 32) \<or> n = 133 \<or> n = 160)"

definition strip :: "string \<Rightarrow> string" where
  "strip s = rev (dropWhile is_space (rev (dropWhile is_space s)))"

text \<open>\<open>s.split(',')\<close>, with the part being read kept reversed in \<open>cur\<close>.\<close>

fun split_on :: "char \<Rightarrow> string \<Rightarrow> string \<Rightarrow> string list" where
  "split_on d cur [] = [rev cur]"
| "split_on d cur (c # cs) =
     (if c = d then rev cur # split_on d [] cs else split_on d (c # cur) cs)"

definition split_comma :: "string \<Rightarrow> string list" where
  "split_comma s = split_on (CHR '','') [] s"

text \<open>\<open>v in ('-', '')\<close> (line 60).\<close>

definition missing :: "string \<Rightarrow> bool" where
  "missing v \<longleftrightarrow> v = ''-'' \<or> v = ''''"

section \<open>One locus\<close>

text \<open>Lines 64 and 65: \<open>set(map(float, v.split(',')))\<close> when \<open>v\<close> holds a comma, and
  \<open>{float(v)}\<close> otherwise. The first part that \<open>float\<close> refuses raises.\<close>

definition parse_alleles :: "(string \<Rightarrow> double option) \<Rightarrow> string \<Rightarrow> error + double list" where
  "parse_alleles pyfloat v =
     (if CHR '','' \<in> set v
      then (case those (map pyfloat (split_comma v)) of
              None \<Rightarrow> Inl ValueError
            | Some xs \<Rightarrow> Inr (py_set xs))
      else (case pyfloat v of None \<Rightarrow> Inl ValueError | Some x \<Rightarrow> Inr [x]))"

text \<open>Lines 67 to 90: the counters and the likelihood ratio after a locus whose two allele
  sets were parsed. The generator of line 79 filters the cross pairs by
  \<open>0 < abs(qa - ca) <= 1.0\<close> and yields \<open>abs(qa - ca) <= 1.0\<close> for each that is left.\<close>

definition compare_alleles :: "double list \<Rightarrow> double list \<Rightarrow> tally \<Rightarrow> error + tally" where
  "compare_alleles q_alleles c_alleles t =
     (let t1 = t\<lparr>compared := compared t + 1\<rparr>;
          t2 = (if py_set_eq q_alleles c_alleles
                then t1\<lparr>identity_matches := identity_matches t1 + 1\<rparr> else t1);
          shared = py_intersection q_alleles c_alleles
      in if shared \<noteq> [] then
           (case py_div (if length c_alleles = 1 then rnd 1.0 else rnd 0.5) (rnd 0.15) of
              Inl e \<Rightarrow> Inl e
            | Inr lr \<Rightarrow>
                Inr (t2\<lparr>consistent := consistent t2 + 1, clr_acc := fmul (clr_acc t2) lr\<rparr>))
         else if \<exists>qa\<in>set q_alleles. \<exists>ca\<in>set c_alleles.
                   (flt (Fin 0) (fabs (fsub qa ca)) \<and> fle (fabs (fsub qa ca)) (rnd 1.0))
                   \<and> fle (fabs (fsub qa ca)) (rnd 1.0) then
           (case py_div (rnd 0.002) (rnd 0.15) of
              Inl e \<Rightarrow> Inl e
            | Inr m \<Rightarrow> Inr (t2\<lparr>mutated := mutated t2 + 1, clr_acc := fmul (clr_acc t2) m\<rparr>))
         else if length q_alleles = 1 \<and> length c_alleles = 1 then
           Inr (t2\<lparr>inconclusive := inconclusive t2 + 1,
                   clr_acc := fmul (clr_acc t2) (rnd 0.5)\<rparr>)
         else
           Inr (t2\<lparr>exclusions := exclusions t2 + 1, clr_acc := fmul (clr_acc t2) (rnd 0.01)\<rparr>))"

text \<open>Lines 56 to 90: the body of the loop over the query's loci.\<close>

definition score_locus ::
  "(string \<Rightarrow> double option) \<Rightarrow> profile \<Rightarrow> profile \<Rightarrow> string \<Rightarrow> tally \<Rightarrow> error + tally" where
  "score_locus pyfloat query_profile candidate_row locus t =
     (let q_val = strip (get_default query_profile locus ''-'');
          c_val = strip (get_default candidate_row locus ''-'')
      in if missing q_val \<or> missing c_val then Inr (t\<lparr>inconclusive := inconclusive t + 1\<rparr>)
         else (case parse_alleles pyfloat q_val of
                 Inl e \<Rightarrow> Inl e
               | Inr q_alleles \<Rightarrow>
                   (case parse_alleles pyfloat c_val of
                      Inl e \<Rightarrow> Inl e
                    | Inr c_alleles \<Rightarrow> compare_alleles q_alleles c_alleles t)))"

text \<open>Line 55: \<open>for locus in loci\<close>; an exception leaves the loop.\<close>

fun score_loci ::
  "(string \<Rightarrow> double option) \<Rightarrow> profile \<Rightarrow> profile \<Rightarrow> string list \<Rightarrow> tally \<Rightarrow> error + tally" where
  "score_loci pyfloat query_profile candidate_row [] t = Inr t"
| "score_loci pyfloat query_profile candidate_row (locus # loci) t =
     (case score_locus pyfloat query_profile candidate_row locus t of
        Inl e \<Rightarrow> Inl e
      | Inr t' \<Rightarrow> score_loci pyfloat query_profile candidate_row loci t')"

section \<open>One candidate, one query, all queries\<close>

text \<open>Lines 92 to 109: the two filters, then the dict of the candidate. \<open>Inr None\<close> is the
  \<open>continue\<close> of a rejected candidate.\<close>

definition admit :: "string \<Rightarrow> tally \<Rightarrow> error + candidate option" where
  "admit cand_id t =
     (if exclusions t > 4 \<or> consistent t < 5 then Inr None
      else if compared t > 0 \<and> real_of_int (identity_matches t) / real_of_int (compared t) > 0.80
      then Inr None
      else (case (if flt (Fin 0) (clr_acc t)
                  then py_div (clr_acc t) (fadd (clr_acc t) (rnd 1.0))
                  else Inr (rnd 0.0)) of
              Inl e \<Rightarrow> Inl e
            | Inr p \<Rightarrow>
                Inr (Some \<lparr>person_id = cand_id, clr = clr_acc t, posterior = p,
                           consistent_loci = consistent t, mutated_loci = mutated t,
                           inconclusive_loci = inconclusive t\<rparr>)))"

text \<open>Lines 43 to 109: the body of the loop over the database rows.\<close>

definition score_candidate ::
  "(string \<Rightarrow> double option) \<Rightarrow> profile \<Rightarrow> string \<Rightarrow> string list \<Rightarrow> profile
     \<Rightarrow> error + candidate option" where
  "score_candidate pyfloat query_profile qid loci candidate_row =
     (case getitem candidate_row ''PersonID'' of
        Inl e \<Rightarrow> Inl e
      | Inr cand_id \<Rightarrow>
          if cand_id = qid then Inr None
          else (case score_loci pyfloat query_profile candidate_row loci init_tally of
                  Inl e \<Rightarrow> Inl e
                | Inr t \<Rightarrow> admit cand_id t))"

text \<open>Line 42: \<open>for _, candidate_row in database_df.iterrows()\<close>, with the list
  \<open>candidates\<close> built so far.\<close>

fun scan_rows ::
  "(string \<Rightarrow> double option) \<Rightarrow> profile \<Rightarrow> string \<Rightarrow> string list \<Rightarrow> profile list
     \<Rightarrow> candidate list \<Rightarrow> error + candidate list" where
  "scan_rows pyfloat query_profile qid loci [] candidates = Inr candidates"
| "scan_rows pyfloat query_profile qid loci (candidate_row # rows) candidates =
     (case score_candidate pyfloat query_profile qid loci candidate_row of
        Inl e \<Rightarrow> Inl e
      | Inr None \<Rightarrow> scan_rows pyfloat query_profile qid loci rows candidates
      | Inr (Some c) \<Rightarrow> scan_rows pyfloat query_profile qid loci rows (candidates @ [c]))"

text \<open>Line 39: the query's keys other than \<open>PersonID\<close>, in the dict's order.\<close>

definition loci_of :: "profile \<Rightarrow> string list" where
  "loci_of query_profile = filter (\<lambda>c. c \<noteq> ''PersonID'') (map fst query_profile)"

text \<open>\<open>match_single\<close>. \<open>list.sort\<close> compares the keys \<open>-x['clr']\<close> with \<open><\<close> and is stable,
  as \<open>sort_key\<close> is on their ranks.\<close>

definition match_single ::
  "(string \<Rightarrow> double option) \<Rightarrow> profile \<Rightarrow> profile list \<Rightarrow> error + candidate list" where
  "match_single pyfloat query_profile database_df =
     (case getitem query_profile ''PersonID'' of
        Inl e \<Rightarrow> Inl e
      | Inr qid \<Rightarrow>
          (case scan_rows pyfloat query_profile qid (loci_of query_profile) database_df [] of
             Inl e \<Rightarrow> Inl e
           | Inr candidates \<Rightarrow>
               Inr (take 10 (sort_key (\<lambda>x. rank (fneg (clr x))) candidates))))"

text \<open>\<open>find_matches\<close>, from the two data frames on (lines 129 to 147): the loop over the
  queries, with the list \<open>results\<close> built so far.\<close>

fun find_matches_loop ::
  "(string \<Rightarrow> double option) \<Rightarrow> profile list \<Rightarrow> profile list \<Rightarrow> query_result list
     \<Rightarrow> error + query_result list" where
  "find_matches_loop pyfloat database_df [] results = Inr results"
| "find_matches_loop pyfloat database_df (query_row # queries) results =
     (case getitem query_row ''PersonID'' of
        Inl e \<Rightarrow> Inl e
      | Inr qid \<Rightarrow>
          (case match_single pyfloat query_row database_df of
             Inl e \<Rightarrow> Inl e
           | Inr ranking \<Rightarrow>
               find_matches_loop pyfloat database_df queries
                 (results @ [\<lparr>query_id = qid, top_candidates = take 10 ranking\<rparr>])))"

definition find_matches ::
  "(string \<Rightarrow> double option) \<Rightarrow> profile list \<Rightarrow> profile list \<Rightarrow> error + query_result list" where
  "find_matches pyfloat database_df queries_df = find_matches_loop pyfloat database_df queries_df []"

section \<open>Vocabulary of the specification\<close>

text \<open>A locus is compared when neither side is missing; its two genotypes are identical
  when both parse to equal sets of alleles.\<close>

definition both_present :: "profile \<Rightarrow> profile \<Rightarrow> string \<Rightarrow> bool" where
  "both_present query_profile candidate_row locus \<longleftrightarrow>
     \<not> missing (strip (get_default query_profile locus ''-'')) \<and>
     \<not> missing (strip (get_default candidate_row locus ''-''))"

definition same_alleles ::
  "(string \<Rightarrow> double option) \<Rightarrow> profile \<Rightarrow> profile \<Rightarrow> string \<Rightarrow> bool" where
  "same_alleles pyfloat query_profile candidate_row locus \<longleftrightarrow>
     (case parse_alleles pyfloat (strip (get_default query_profile locus ''-'')) of
        Inl e \<Rightarrow> False
      | Inr q_alleles \<Rightarrow>
          (case parse_alleles pyfloat (strip (get_default candidate_row locus ''-'')) of
             Inl e \<Rightarrow> False
           | Inr c_alleles \<Rightarrow> py_set_eq q_alleles c_alleles))"

text \<open>The scores of the rows that produce one, in the order of the rows. A row whose
  comparison raises contributes nothing here: this is the scan that drops such a row and
  goes on, which section 7 of the specification asks for.\<close>

definition survivors ::
  "(string \<Rightarrow> double option) \<Rightarrow> profile \<Rightarrow> string \<Rightarrow> string list \<Rightarrow> profile list
     \<Rightarrow> candidate list" where
  "survivors pyfloat query_profile qid loci database_df =
     List.map_filter
       (\<lambda>row. case score_candidate pyfloat query_profile qid loci row of
                 Inl e \<Rightarrow> None
               | Inr r \<Rightarrow> r)
       database_df"

text \<open>A likelihood ratio of the program is \<open>+inf\<close> or finite and not negative.\<close>

definition nonneg_d :: "double \<Rightarrow> bool" where
  "nonneg_d d \<longleftrightarrow> d = PInf \<or> (\<exists>x. d = Fin x \<and> 0 \<le> x)"

section \<open>Example data\<close>

text \<open>The values of \<open>float()\<close> on the strings the examples use; the four that are not
  integers are the doubles nearest to the decimals (\<open>rnd_03\<close> and the three lemmas after
  it). It raises on \<open>abc\<close>, as \<open>float()\<close> does.\<close>

definition ex_float :: "string \<Rightarrow> double option" where
  "ex_float = map_of [(''9'', Fin 9), (''10'', Fin 10), (''11'', Fin 11), (''12'', Fin 12),
                      (''14'', Fin 14),
                      (''0.3'', Fin (5404319552844595 / 18014398509481984)),
                      (''1.3'', Fin (5854679515581645 / 4503599627370496)),
                      (''31.2'', Fin (8782019273372467 / 281474976710656)),
                      (''32.2'', Fin (2265873562520781 / 70368744177664)),
                      (''nan'', NaN)]"

text \<open>A profile with the identifier \<open>pid\<close>, the genotype \<open>v\<close> at five loci and \<open>v6\<close> at a
  sixth.\<close>

definition ex_profile :: "string \<Rightarrow> string \<Rightarrow> string \<Rightarrow> profile" where
  "ex_profile pid v v6 =
     [(''PersonID'', pid), (''L1'', v), (''L2'', v), (''L3'', v), (''L4'', v), (''L5'', v),
      (''L6'', v6)]"

definition ex_query :: profile where
  "ex_query = ex_profile ''Q1'' ''9,10'' ''-''"

definition ex_row :: profile where
  "ex_row = ex_profile ''P1'' ''9,11'' ''12''"

text \<open>The likelihood ratios of the examples, as Python computes them: \<open>0.5 / 0.15\<close>,
  \<open>1.0 / 0.15\<close> and \<open>0.002 / 0.15\<close>, and the product of five factors \<open>0.5 / 0.15\<close>, of five
  factors \<open>1.0 / 0.15\<close> and of five factors \<open>0.01\<close>, each product rounded.\<close>

definition lr_het :: double where
  "lr_het = Fin (7505999378950827 / 2251799813685248)"

definition lr_hom :: double where
  "lr_hom = Fin (7505999378950827 / 1125899906842624)"

definition lr_mut :: double where
  "lr_mut = Fin (7686143364045647 / 576460752303423488)"

definition clr_het :: double where
  "clr_het = Fin (3619791367163787 / 8796093022208)"

definition clr_hom :: double where
  "clr_hom = Fin (3619791367163787 / 274877906944)"

definition clr_exc :: double where
  "clr_exc = Fin (1934281311383407 / 19342813113834066795298816)"

definition ex_tally :: tally where
  "ex_tally = \<lparr>clr_acc = clr_het, consistent = 5, mutated = 0, inconclusive = 1,
                exclusions = 0, identity_matches = 0, compared = 5\<rparr>"

text \<open>The score of a row that agrees with \<open>ex_query\<close> as \<open>ex_row\<close> does, and of one that is
  homozygous where \<open>ex_row\<close> is not.\<close>

definition ex_candidate :: "string \<Rightarrow> candidate" where
  "ex_candidate pid = \<lparr>person_id = pid, clr = clr_het,
       posterior = Fin (8985364818232687 / 9007199254740992),
       consistent_loci = 5, mutated_loci = 0, inconclusive_loci = 1\<rparr>"

definition ex_candidate_hom :: "string \<Rightarrow> candidate" where
  "ex_candidate_hom pid = \<lparr>person_id = pid, clr = clr_hom,
       posterior = Fin (9006515322483691 / 9007199254740992),
       consistent_loci = 5, mutated_loci = 0, inconclusive_loci = 1\<rparr>"

section \<open>Evaluating the arithmetic\<close>

declare fadd.simps(1) [simp del] fmul.simps(1) [simp del] fdiv.simps(1) [simp del]

lemma pos_of_binade: "2 powi k \<le> \<bar>x\<bar> \<Longrightarrow> x \<noteq> (0::real)"
proof -
  assume a: "2 powi k \<le> \<bar>x\<bar>"
  have "0 < (2::real) powi k" by simp
  with a have "0 < \<bar>x\<bar>" by linarith
  then show ?thesis by simp
qed

lemma ulp_exp_eval:
  assumes "2 powi k \<le> \<bar>x\<bar>" and "\<bar>x\<bar> < 2 powi (k + 1)"
  shows "ulp_exp x = max (k - 52) (- 1074)"
proof -
  have pos: "0 < \<bar>x\<bar>"
    using pos_of_binade [OF assms(1)] by simp
  have a: "(2::real) powr real_of_int k = 2 powi k"
    by (rule powr_real_of_int') simp_all
  have "(2::real) powr real_of_int (k + 1) = 2 powi (k + 1)"
    by (rule powr_real_of_int') simp_all
  then have b: "(2::real) powr (real_of_int k + 1) = 2 powi (k + 1)"
    by simp
  have "(2::real) powr real_of_int k \<le> \<bar>x\<bar> \<and> \<bar>x\<bar> < 2 powr (real_of_int k + 1)"
    unfolding a b using assms by simp
  then have "\<lfloor>log 2 \<bar>x\<bar>\<rfloor> = k"
    using pos floor_log_eq_powr_iff [of "\<bar>x\<bar>" 2 k] by simp
  then show ?thesis by (simp add: ulp_exp_def)
qed

text \<open>A rounding is checked from the binade \<open>k\<close> of \<open>x\<close> and the significand \<open>m\<close>.\<close>

lemma rnd_cert:
  assumes "2 powi k \<le> \<bar>x\<bar>" and "\<bar>x\<bar> < 2 powi (k + 1)"
    and "round_half_even (x / 2 powi max (k - 52) (- 1074)) = m"
    and "y = of_int m * 2 powi max (k - 52) (- 1074)"
    and "\<bar>y\<bar> < 2 ^ 1024"
  shows "rnd x = Fin y"
proof -
  have "x \<noteq> 0"
    by (rule pos_of_binade [OF assms(1)])
  moreover have "ulp_exp x = max (k - 52) (- 1074)"
    by (rule ulp_exp_eval [OF assms(1,2)])
  ultimately show ?thesis
    using assms(3,4,5) by (simp add: rnd_def Let_def)
qed

lemma rnd_0: "rnd 0 = Fin 0"
  by (simp add: rnd_def)

lemma rnd_1:
  "rnd (1) = Fin (1)"
  by (rule rnd_cert [where k = "0" and m = "4503599627370496"])
     (simp_all add: round_half_even_def power_int_minus)

lemma rnd_half:
  "rnd (1 / 2) = Fin (1 / 2)"
  by (rule rnd_cert [where k = "- 1" and m = "4503599627370496"])
     (simp_all add: round_half_even_def power_int_minus)

lemma rnd_015:
  "rnd (3 / 20) = Fin (5404319552844595 / 36028797018963968)"
  by (rule rnd_cert [where k = "- 3" and m = "5404319552844595"])
     (simp_all add: round_half_even_def power_int_minus)

lemma rnd_0002:
  "rnd (1 / 500) = Fin (1152921504606847 / 576460752303423488)"
  by (rule rnd_cert [where k = "- 9" and m = "4611686018427388"])
     (simp_all add: round_half_even_def power_int_minus)

lemma rnd_001:
  "rnd (1 / 100) = Fin (5764607523034235 / 576460752303423488)"
  by (rule rnd_cert [where k = "- 7" and m = "5764607523034235"])
     (simp_all add: round_half_even_def power_int_minus)

lemma rnd_03:
  "rnd (3 / 10) = Fin (5404319552844595 / 18014398509481984)"
  by (rule rnd_cert [where k = "- 2" and m = "5404319552844595"])
     (simp_all add: round_half_even_def power_int_minus)

lemma rnd_13:
  "rnd (13 / 10) = Fin (5854679515581645 / 4503599627370496)"
  by (rule rnd_cert [where k = "0" and m = "5854679515581645"])
     (simp_all add: round_half_even_def power_int_minus)

lemma rnd_312:
  "rnd (156 / 5) = Fin (8782019273372467 / 281474976710656)"
  by (rule rnd_cert [where k = "4" and m = "8782019273372467"])
     (simp_all add: round_half_even_def power_int_minus)

lemma rnd_322:
  "rnd (161 / 5) = Fin (2265873562520781 / 70368744177664)"
  by (rule rnd_cert [where k = "5" and m = "4531747125041562"])
     (simp_all add: round_half_even_def power_int_minus)

lemma div_hom:
  "py_div (Fin (1)) (Fin (5404319552844595 / 36028797018963968)) = Inr (Fin (7505999378950827 / 1125899906842624))"
proof -
  have "rnd ((1) / (5404319552844595 / 36028797018963968)) = Fin (7505999378950827 / 1125899906842624)"
    by (rule rnd_cert [where k = "2" and m = "7505999378950827"])
     (simp_all add: round_half_even_def power_int_minus)
  then show ?thesis
    by (simp add: py_div_def fdiv.simps)
qed

lemma div_het:
  "py_div (Fin (1 / 2)) (Fin (5404319552844595 / 36028797018963968)) = Inr (Fin (7505999378950827 / 2251799813685248))"
proof -
  have "rnd ((1 / 2) / (5404319552844595 / 36028797018963968)) = Fin (7505999378950827 / 2251799813685248)"
    by (rule rnd_cert [where k = "1" and m = "7505999378950827"])
     (simp_all add: round_half_even_def power_int_minus)
  then show ?thesis
    by (simp add: py_div_def fdiv.simps)
qed

lemma div_mut:
  "py_div (Fin (1152921504606847 / 576460752303423488)) (Fin (5404319552844595 / 36028797018963968)) = Inr (Fin (7686143364045647 / 576460752303423488))"
proof -
  have "rnd ((1152921504606847 / 576460752303423488) / (5404319552844595 / 36028797018963968)) = Fin (7686143364045647 / 576460752303423488)"
    by (rule rnd_cert [where k = "- 7" and m = "7686143364045647"])
     (simp_all add: round_half_even_def power_int_minus)
  then show ?thesis
    by (simp add: py_div_def fdiv.simps)
qed

lemma mul_het_1:
  "fmul (Fin (1)) (Fin (7505999378950827 / 2251799813685248)) = Fin (7505999378950827 / 2251799813685248)"
  unfolding fmul.simps
  by (rule rnd_cert [where k = "1" and m = "7505999378950827"])
     (simp_all add: round_half_even_def power_int_minus)

lemma mul_het_2:
  "fmul (Fin (7505999378950827 / 2251799813685248)) (Fin (7505999378950827 / 2251799813685248)) = Fin (6254999482459023 / 562949953421312)"
  unfolding fmul.simps
  by (rule rnd_cert [where k = "3" and m = "6254999482459023"])
     (simp_all add: round_half_even_def power_int_minus)

lemma mul_het_3:
  "fmul (Fin (6254999482459023 / 562949953421312)) (Fin (7505999378950827 / 2251799813685248)) = Fin (5212499568715853 / 140737488355328)"
  unfolding fmul.simps
  by (rule rnd_cert [where k = "5" and m = "5212499568715853"])
     (simp_all add: round_half_even_def power_int_minus)

lemma mul_het_4:
  "fmul (Fin (5212499568715853 / 140737488355328)) (Fin (7505999378950827 / 2251799813685248)) = Fin (8687499281193089 / 70368744177664)"
  unfolding fmul.simps
  by (rule rnd_cert [where k = "6" and m = "8687499281193089"])
     (simp_all add: round_half_even_def power_int_minus)

lemma mul_het_5:
  "fmul (Fin (8687499281193089 / 70368744177664)) (Fin (7505999378950827 / 2251799813685248)) = Fin (3619791367163787 / 8796093022208)"
  unfolding fmul.simps
  by (rule rnd_cert [where k = "8" and m = "7239582734327574"])
     (simp_all add: round_half_even_def power_int_minus)

lemma add_het:
  "fadd (Fin (3619791367163787 / 8796093022208)) (Fin (1)) = Fin (3628587460185995 / 8796093022208)"
  unfolding fsub_def fneg.simps fadd.simps
  by (rule rnd_cert [where k = "8" and m = "7257174920371990"])
     (simp_all add: round_half_even_def power_int_minus)

lemma div_post_het:
  "py_div (Fin (3619791367163787 / 8796093022208)) (Fin (3628587460185995 / 8796093022208)) = Inr (Fin (8985364818232687 / 9007199254740992))"
proof -
  have "rnd ((3619791367163787 / 8796093022208) / (3628587460185995 / 8796093022208)) = Fin (8985364818232687 / 9007199254740992)"
    by (rule rnd_cert [where k = "- 1" and m = "8985364818232687"])
     (simp_all add: round_half_even_def power_int_minus)
  then show ?thesis
    by (simp add: py_div_def fdiv.simps)
qed

lemma mul_hom_1:
  "fmul (Fin (1)) (Fin (7505999378950827 / 1125899906842624)) = Fin (7505999378950827 / 1125899906842624)"
  unfolding fmul.simps
  by (rule rnd_cert [where k = "2" and m = "7505999378950827"])
     (simp_all add: round_half_even_def power_int_minus)

lemma mul_hom_2:
  "fmul (Fin (7505999378950827 / 1125899906842624)) (Fin (7505999378950827 / 1125899906842624)) = Fin (6254999482459023 / 140737488355328)"
  unfolding fmul.simps
  by (rule rnd_cert [where k = "5" and m = "6254999482459023"])
     (simp_all add: round_half_even_def power_int_minus)

lemma mul_hom_3:
  "fmul (Fin (6254999482459023 / 140737488355328)) (Fin (7505999378950827 / 1125899906842624)) = Fin (5212499568715853 / 17592186044416)"
  unfolding fmul.simps
  by (rule rnd_cert [where k = "8" and m = "5212499568715853"])
     (simp_all add: round_half_even_def power_int_minus)

lemma mul_hom_4:
  "fmul (Fin (5212499568715853 / 17592186044416)) (Fin (7505999378950827 / 1125899906842624)) = Fin (8687499281193089 / 4398046511104)"
  unfolding fmul.simps
  by (rule rnd_cert [where k = "10" and m = "8687499281193089"])
     (simp_all add: round_half_even_def power_int_minus)

lemma mul_hom_5:
  "fmul (Fin (8687499281193089 / 4398046511104)) (Fin (7505999378950827 / 1125899906842624)) = Fin (3619791367163787 / 274877906944)"
  unfolding fmul.simps
  by (rule rnd_cert [where k = "13" and m = "7239582734327574"])
     (simp_all add: round_half_even_def power_int_minus)

lemma add_hom:
  "fadd (Fin (3619791367163787 / 274877906944)) (Fin (1)) = Fin (3620066245070731 / 274877906944)"
  unfolding fsub_def fneg.simps fadd.simps
  by (rule rnd_cert [where k = "13" and m = "7240132490141462"])
     (simp_all add: round_half_even_def power_int_minus)

lemma div_post_hom:
  "py_div (Fin (3619791367163787 / 274877906944)) (Fin (3620066245070731 / 274877906944)) = Inr (Fin (9006515322483691 / 9007199254740992))"
proof -
  have "rnd ((3619791367163787 / 274877906944) / (3620066245070731 / 274877906944)) = Fin (9006515322483691 / 9007199254740992)"
    by (rule rnd_cert [where k = "- 1" and m = "9006515322483691"])
     (simp_all add: round_half_even_def power_int_minus)
  then show ?thesis
    by (simp add: py_div_def fdiv.simps)
qed

lemma mul_exc_1:
  "fmul (Fin (1)) (Fin (5764607523034235 / 576460752303423488)) = Fin (5764607523034235 / 576460752303423488)"
  unfolding fmul.simps
  by (rule rnd_cert [where k = "- 7" and m = "5764607523034235"])
     (simp_all add: round_half_even_def power_int_minus)

lemma mul_exc_2:
  "fmul (Fin (5764607523034235 / 576460752303423488)) (Fin (5764607523034235 / 576460752303423488)) = Fin (7378697629483821 / 73786976294838206464)"
  unfolding fmul.simps
  by (rule rnd_cert [where k = "- 14" and m = "7378697629483821"])
     (simp_all add: round_half_even_def power_int_minus)

lemma mul_exc_3:
  "fmul (Fin (7378697629483821 / 73786976294838206464)) (Fin (5764607523034235 / 576460752303423488)) = Fin (2361183241434823 / 2361183241434822606848)"
  unfolding fmul.simps
  by (rule rnd_cert [where k = "- 20" and m = "4722366482869646"])
     (simp_all add: round_half_even_def power_int_minus)

lemma mul_exc_4:
  "fmul (Fin (2361183241434823 / 2361183241434822606848)) (Fin (5764607523034235 / 576460752303423488)) = Fin (6044629098073147 / 604462909807314587353088)"
  unfolding fmul.simps
  by (rule rnd_cert [where k = "- 27" and m = "6044629098073147"])
     (simp_all add: round_half_even_def power_int_minus)

lemma mul_exc_5:
  "fmul (Fin (6044629098073147 / 604462909807314587353088)) (Fin (5764607523034235 / 576460752303423488)) = Fin (1934281311383407 / 19342813113834066795298816)"
  unfolding fmul.simps
  by (rule rnd_cert [where k = "- 34" and m = "7737125245533628"])
     (simp_all add: round_half_even_def power_int_minus)

lemma mul_mut_1:
  "fmul (Fin (1)) (Fin (7686143364045647 / 576460752303423488)) = Fin (7686143364045647 / 576460752303423488)"
  unfolding fmul.simps
  by (rule rnd_cert [where k = "- 7" and m = "7686143364045647"])
     (simp_all add: round_half_even_def power_int_minus)

lemma mul_drop_1:
  "fmul (Fin (1)) (Fin (1 / 2)) = Fin (1 / 2)"
  unfolding fmul.simps
  by (rule rnd_cert [where k = "- 1" and m = "4503599627370496"])
     (simp_all add: round_half_even_def power_int_minus)

lemma sub_9_10:
  "fsub (Fin (9)) (Fin (10)) = Fin (- 1)"
  unfolding fsub_def fneg.simps fadd.simps
  by (rule rnd_cert [where k = "0" and m = "- 4503599627370496"])
     (simp_all add: round_half_even_def power_int_minus)

lemma sub_9_12:
  "fsub (Fin (9)) (Fin (12)) = Fin (- 3)"
  unfolding fsub_def fneg.simps fadd.simps
  by (rule rnd_cert [where k = "1" and m = "- 6755399441055744"])
     (simp_all add: round_half_even_def power_int_minus)

lemma sub_9_14:
  "fsub (Fin (9)) (Fin (14)) = Fin (- 5)"
  unfolding fsub_def fneg.simps fadd.simps
  by (rule rnd_cert [where k = "2" and m = "- 5629499534213120"])
     (simp_all add: round_half_even_def power_int_minus)

lemma sub_10_12:
  "fsub (Fin (10)) (Fin (12)) = Fin (- 2)"
  unfolding fsub_def fneg.simps fadd.simps
  by (rule rnd_cert [where k = "1" and m = "- 4503599627370496"])
     (simp_all add: round_half_even_def power_int_minus)

lemma sub_10_14:
  "fsub (Fin (10)) (Fin (14)) = Fin (- 4)"
  unfolding fsub_def fneg.simps fadd.simps
  by (rule rnd_cert [where k = "2" and m = "- 4503599627370496"])
     (simp_all add: round_half_even_def power_int_minus)

lemma sub_03_13:
  "fsub (Fin (5404319552844595 / 18014398509481984)) (Fin (5854679515581645 / 4503599627370496)) = Fin (- 1)"
  unfolding fsub_def fneg.simps fadd.simps
  by (rule rnd_cert [where k = "0" and m = "- 4503599627370496"])
     (simp_all add: round_half_even_def power_int_minus)

lemma sub_312_322:
  "fsub (Fin (8782019273372467 / 281474976710656)) (Fin (2265873562520781 / 70368744177664)) = Fin (- (281474976710657 / 281474976710656))"
  unfolding fsub_def fneg.simps fadd.simps
  by (rule rnd_cert [where k = "0" and m = "- 4503599627370512"])
     (simp_all add: round_half_even_def power_int_minus)

lemmas float_evals =
  rnd_1 rnd_half rnd_015 rnd_0002 rnd_001 rnd_03
  rnd_13 rnd_312 rnd_322 div_hom div_het div_mut
  mul_het_1 mul_het_2 mul_het_3 mul_het_4 mul_het_5 add_het
  div_post_het mul_hom_1 mul_hom_2 mul_hom_3 mul_hom_4 mul_hom_5
  add_hom div_post_hom mul_exc_1 mul_exc_2 mul_exc_3 mul_exc_4
  mul_exc_5 mul_mut_1 mul_drop_1 sub_9_10 sub_9_12 sub_9_14
  sub_10_12 sub_10_14 sub_03_13 sub_312_322

lemmas lr_defs = lr_het_def lr_hom_def lr_mut_def clr_het_def clr_hom_def clr_exc_def

section \<open>Sign and order of the likelihood ratio\<close>

lemma round_half_even_nonneg: "0 \<le> y \<Longrightarrow> 0 \<le> round_half_even y"
  by (auto simp: round_half_even_def Let_def)

lemma rnd_nonneg: "0 \<le> x \<Longrightarrow> nonneg_d (rnd x)"
proof -
  assume x: "0 \<le> x"
  have "0 \<le> x / 2 powi ulp_exp x"
    using x by simp
  then have "0 \<le> real_of_int (round_half_even (x / 2 powi ulp_exp x)) * 2 powi ulp_exp x"
    using round_half_even_nonneg by simp
  with x show ?thesis
    by (auto simp: rnd_def nonneg_d_def Let_def)
qed

lemma floor_le_round_half_even: "\<lfloor>y\<rfloor> \<le> round_half_even y"
  by (simp add: round_half_even_def Let_def)

text \<open>A sum \<open>x + 1.0\<close> with \<open>x\<close> positive is not a zero.\<close>

lemma rnd_ge_one:
  assumes "1 \<le> x"
  shows "rnd x \<noteq> Fin 0"
proof -
  define k where "k = \<lfloor>log 2 x\<rfloor>"
  have x: "0 < x" using assms by simp
  have "0 \<le> log 2 x" using assms by simp
  then have k0: "0 \<le> k" by (simp add: k_def)
  have "2 powr real_of_int k \<le> x"
    using floor_log_eq_powr_iff [of x 2 k] x by (simp add: k_def)
  then have lo: "2 powi k \<le> x"
    by (simp add: powr_real_of_int')
  have u: "ulp_exp x = k - 52"
    using k0 x by (simp add: ulp_exp_def k_def)
  have "(2::real) powi k = 2 powi (k - 52) * 2 ^ 52"
    by (simp add: power_int_diff)
  with lo have "2 ^ 52 \<le> x / 2 powi (k - 52)"
    by (simp add: pos_le_divide_eq mult.commute)
  moreover have "(1::real) \<le> 2 ^ 52"
    by simp
  ultimately have "1 \<le> x / 2 powi (k - 52)"
    by (rule order_trans [rotated])
  then have "1 \<le> \<lfloor>x / 2 powi (k - 52)\<rfloor>"
    by (subst le_floor_iff) simp
  then have "1 \<le> round_half_even (x / 2 powi (k - 52))"
    using floor_le_round_half_even [of "x / 2 powi (k - 52)"] by linarith
  then have "0 < real_of_int (round_half_even (x / 2 powi (k - 52))) * 2 powi (k - 52)"
    by simp
  with x show ?thesis
    by (auto simp: rnd_def u Let_def)
qed

lemma fmul_nonneg:
  assumes "nonneg_d a" and "0 < c"
  shows "nonneg_d (fmul a (Fin c))"
proof (cases a)
  case (Fin x)
  with assms have "0 \<le> x * c"
    by (simp add: nonneg_d_def)
  then show ?thesis
    unfolding Fin fmul.simps by (rule rnd_nonneg)
next
  case PInf
  with assms(2) show ?thesis
    by (simp add: nonneg_d_def signed_inf_def)
next
  case NInf
  with assms(1) show ?thesis
    by (simp add: nonneg_d_def)
next
  case NaN
  with assms(1) show ?thesis
    by (simp add: nonneg_d_def)
qed

lemma nonneg_d_not_NaN: "nonneg_d a \<Longrightarrow> a \<noteq> NaN"
  by (auto simp: nonneg_d_def)

lemma rank_inj: "rank a = rank b \<longleftrightarrow> a = b"
  by (cases a; cases b) simp_all

lemma fneg_inj: "fneg a = fneg b \<longleftrightarrow> a = b"
  by (cases a; cases b) simp_all

lemma rank_fneg_le: "a \<noteq> NaN \<Longrightarrow> b \<noteq> NaN \<Longrightarrow> rank (fneg a) \<le> rank (fneg b) \<longleftrightarrow> fle b a"
  by (cases a; cases b) (auto simp: fle_def)

section \<open>The branches of one locus\<close>

text \<open>The divisions of \<open>compare_alleles\<close> have the divisor \<open>0.15\<close> and do not raise.\<close>

lemma compare_alleles_eval:
  "compare_alleles qs cs t =
     Inr (let t2 = t\<lparr>compared := compared t + 1,
                      identity_matches := identity_matches t + (if py_set_eq qs cs then 1 else 0)\<rparr>
          in if py_intersection qs cs \<noteq> [] then
               t2\<lparr>consistent := consistent t + 1,
                  clr_acc := fmul (clr_acc t) (if length cs = 1 then lr_hom else lr_het)\<rparr>
             else if \<exists>qa\<in>set qs. \<exists>ca\<in>set cs.
                       flt (Fin 0) (fabs (fsub qa ca)) \<and> fle (fabs (fsub qa ca)) (Fin 1) then
               t2\<lparr>mutated := mutated t + 1, clr_acc := fmul (clr_acc t) lr_mut\<rparr>
             else if length qs = 1 \<and> length cs = 1 then
               t2\<lparr>inconclusive := inconclusive t + 1, clr_acc := fmul (clr_acc t) (Fin (1 / 2))\<rparr>
             else
               t2\<lparr>exclusions := exclusions t + 1,
                  clr_acc := fmul (clr_acc t) (Fin (5764607523034235 / 576460752303423488))\<rparr>)"
  unfolding compare_alleles_def Let_def
  by (cases "py_set_eq qs cs")
     (auto simp add: rnd_1 rnd_half rnd_015 rnd_0002 rnd_001 div_hom div_het div_mut lr_defs)

lemma compare_alleles_counts:
  assumes "compare_alleles qs cs t = Inr t'"
  shows "compared t' = compared t + 1"
    and "identity_matches t' = identity_matches t + (if py_set_eq qs cs then 1 else 0)"
    and "consistent t' + mutated t' + inconclusive t' + exclusions t'
           = consistent t + mutated t + inconclusive t + exclusions t + 1"
  using assms unfolding compare_alleles_eval Let_def
  by (auto split: if_splits)

lemma compare_alleles_clr:
  assumes "compare_alleles qs cs t = Inr t'" and "nonneg_d (clr_acc t)"
  shows "nonneg_d (clr_acc t')"
proof -
  have "nonneg_d (fmul (clr_acc t) lr_hom)" "nonneg_d (fmul (clr_acc t) lr_het)"
    "nonneg_d (fmul (clr_acc t) lr_mut)" "nonneg_d (fmul (clr_acc t) (Fin (1 / 2)))"
    "nonneg_d (fmul (clr_acc t) (Fin (5764607523034235 / 576460752303423488)))"
    unfolding lr_defs by (rule fmul_nonneg [OF assms(2)], simp)+
  with assms(1) show ?thesis
    unfolding compare_alleles_eval Let_def by (auto split: if_splits)
qed

section \<open>The counters of one comparison\<close>

lemma score_locus_missing:
  "\<not> both_present q c l \<Longrightarrow>
     score_locus pf q c l t = Inr (t\<lparr>inconclusive := inconclusive t + 1\<rparr>)"
  by (auto simp: score_locus_def both_present_def Let_def)

lemma score_locus_present:
  "both_present q c l \<Longrightarrow> score_locus pf q c l t = Inr t' \<Longrightarrow>
   \<exists>qs cs. parse_alleles pf (strip (get_default q l ''-'')) = Inr qs \<and>
           parse_alleles pf (strip (get_default c l ''-'')) = Inr cs \<and>
           compare_alleles qs cs t = Inr t'"
  by (auto simp: score_locus_def both_present_def Let_def split: sum.splits)

lemma score_locus_counts:
  assumes "score_locus pf q c l t = Inr t'"
  shows "compared t' = compared t + (if both_present q c l then 1 else 0)"
    and "identity_matches t' = identity_matches t
           + (if both_present q c l \<and> same_alleles pf q c l then 1 else 0)"
    and "consistent t' + mutated t' + inconclusive t' + exclusions t'
           = consistent t + mutated t + inconclusive t + exclusions t + 1"
proof -
  show "compared t' = compared t + (if both_present q c l then 1 else 0)"
  proof (cases "both_present q c l")
    case True
    with assms score_locus_present show ?thesis
      by (fastforce simp: compare_alleles_counts)
  next
    case False
    with assms show ?thesis by (auto simp: score_locus_missing)
  qed
  show "identity_matches t' = identity_matches t
           + (if both_present q c l \<and> same_alleles pf q c l then 1 else 0)"
  proof (cases "both_present q c l")
    case True
    from score_locus_present [OF True assms] obtain qs cs where
      "parse_alleles pf (strip (get_default q l ''-'')) = Inr qs"
      "parse_alleles pf (strip (get_default c l ''-'')) = Inr cs"
      "compare_alleles qs cs t = Inr t'" by blast
    with True show ?thesis
      by (simp add: compare_alleles_counts same_alleles_def)
  next
    case False
    with assms show ?thesis by (auto simp: score_locus_missing)
  qed
  show "consistent t' + mutated t' + inconclusive t' + exclusions t'
           = consistent t + mutated t + inconclusive t + exclusions t + 1"
  proof (cases "both_present q c l")
    case True
    with assms score_locus_present show ?thesis
      by (fastforce simp: compare_alleles_counts)
  next
    case False
    with assms show ?thesis by (auto simp: score_locus_missing)
  qed
qed

lemma score_loci_counts:
  "score_loci pf q c loci t = Inr t' \<Longrightarrow>
     compared t' = compared t + int (length (filter (both_present q c) loci)) \<and>
     identity_matches t' = identity_matches t
        + int (length (filter (\<lambda>l. both_present q c l \<and> same_alleles pf q c l) loci)) \<and>
     consistent t' + mutated t' + inconclusive t' + exclusions t'
        = consistent t + mutated t + inconclusive t + exclusions t + int (length loci)"
proof (induction loci arbitrary: t)
  case Nil
  then show ?case by simp
next
  case (Cons l loci)
  from Cons.prems obtain t1 where s: "score_locus pf q c l t = Inr t1"
    and r: "score_loci pf q c loci t1 = Inr t'"
    by (auto split: sum.splits)
  from Cons.IH [OF r] score_locus_counts [OF s] show ?case
    by simp
qed

section \<open>The likelihood ratio is never NaN\<close>

lemma score_locus_clr:
  assumes "score_locus pf q c l t = Inr t'" and "nonneg_d (clr_acc t)"
  shows "nonneg_d (clr_acc t')"
proof (cases "both_present q c l")
  case True
  from score_locus_present [OF True assms(1)] compare_alleles_clr assms(2) show ?thesis
    by blast
next
  case False
  with assms show ?thesis by (auto simp: score_locus_missing)
qed

lemma score_loci_clr:
  "score_loci pf q c loci t = Inr t' \<Longrightarrow> nonneg_d (clr_acc t) \<Longrightarrow> nonneg_d (clr_acc t')"
proof (induction loci arbitrary: t)
  case Nil
  then show ?case by simp
next
  case (Cons l loci)
  from Cons.prems(1) obtain t1 where s: "score_locus pf q c l t = Inr t1"
    and r: "score_loci pf q c loci t1 = Inr t'"
    by (auto split: sum.splits)
  from Cons.IH [OF r score_locus_clr [OF s Cons.prems(2)]] show ?case .
qed

lemma init_tally_clr: "nonneg_d (clr_acc init_tally)"
  by (simp add: init_tally_def rnd_1 nonneg_d_def)

section \<open>Evaluating the examples\<close>

lemma ex_profile_id: "getitem (ex_profile pid v v6) ''PersonID'' = Inr pid"
  by (simp add: getitem_def ex_profile_def)

lemma ex_profile_loci:
  "loci_of (ex_profile pid v v6) = [''L1'', ''L2'', ''L3'', ''L4'', ''L5'', ''L6'']"
  by (simp add: loci_of_def ex_profile_def)

lemma ex_profile_get:
  "get_default (ex_profile pid v v6) ''L1'' d = v"
  "get_default (ex_profile pid v v6) ''L2'' d = v"
  "get_default (ex_profile pid v v6) ''L3'' d = v"
  "get_default (ex_profile pid v v6) ''L4'' d = v"
  "get_default (ex_profile pid v v6) ''L5'' d = v"
  "get_default (ex_profile pid v v6) ''L6'' d = v6"
  by (simp_all add: get_default_def ex_profile_def)

lemma strip_ex:
  "strip ''9,10'' = ''9,10''" "strip ''9,11'' = ''9,11''" "strip ''12,14'' = ''12,14''"
  "strip ''9'' = ''9''" "strip ''12'' = ''12''" "strip ''-'' = ''-''" "strip ''abc'' = ''abc''"
  "strip '' - '' = ''-''" "strip ''0.3'' = ''0.3''" "strip ''1.3'' = ''1.3''"
  "strip ''31.2'' = ''31.2''" "strip ''32.2'' = ''32.2''" "strip ''nan'' = ''nan''"
  by (simp_all add: strip_def is_space_def)

lemma parse_ex:
  "parse_alleles ex_float ''9,10'' = Inr [Fin 9, Fin 10]"
  "parse_alleles ex_float ''9,11'' = Inr [Fin 9, Fin 11]"
  "parse_alleles ex_float ''12,14'' = Inr [Fin 12, Fin 14]"
  "parse_alleles ex_float ''9'' = Inr [Fin 9]"
  "parse_alleles ex_float ''12'' = Inr [Fin 12]"
  "parse_alleles ex_float ''abc'' = Inl ValueError"
  "parse_alleles ex_float ''0.3'' = Inr [Fin (5404319552844595 / 18014398509481984)]"
  "parse_alleles ex_float ''1.3'' = Inr [Fin (5854679515581645 / 4503599627370496)]"
  "parse_alleles ex_float ''31.2'' = Inr [Fin (8782019273372467 / 281474976710656)]"
  "parse_alleles ex_float ''32.2'' = Inr [Fin (2265873562520781 / 70368744177664)]"
  "parse_alleles ex_float ''nan'' = Inr [NaN]"
  by (simp_all add: parse_alleles_def split_comma_def ex_float_def py_set_def py_set_add_def
        py_in_def)

lemmas py_set_defs = py_set_eq_def py_intersection_def py_in_def fle_def

lemma compare_ex:
  "compare_alleles [Fin 9, Fin 10] [Fin 9, Fin 11] t
     = Inr (t\<lparr>compared := compared t + 1, consistent := consistent t + 1,
              clr_acc := fmul (clr_acc t) lr_het\<rparr>)"
  "compare_alleles [Fin 9, Fin 10] [Fin 9, Fin 10] t
     = Inr (t\<lparr>compared := compared t + 1, identity_matches := identity_matches t + 1,
              consistent := consistent t + 1, clr_acc := fmul (clr_acc t) lr_het\<rparr>)"
  "compare_alleles [Fin 9, Fin 10] [Fin 9] t
     = Inr (t\<lparr>compared := compared t + 1, consistent := consistent t + 1,
              clr_acc := fmul (clr_acc t) lr_hom\<rparr>)"
  "compare_alleles [Fin 9, Fin 10] [Fin 12, Fin 14] t
     = Inr (t\<lparr>compared := compared t + 1, exclusions := exclusions t + 1,
              clr_acc := fmul (clr_acc t) (Fin (5764607523034235 / 576460752303423488))\<rparr>)"
  by (simp_all add: compare_alleles_eval Let_def py_set_defs float_evals)

lemma score_locus_ex:
  assumes "get_default q l ''-'' = qv" "get_default c l ''-'' = cv"
  shows "score_locus ex_float q c l t = score_locus ex_float [(l, qv)] [(l, cv)] l t"
  using assms by (simp add: score_locus_def get_default_def)

lemma score_locus_vals:
  "score_locus ex_float [(l, ''9,10'')] [(l, ''9,11'')] l t
     = compare_alleles [Fin 9, Fin 10] [Fin 9, Fin 11] t"
  "score_locus ex_float [(l, ''9,10'')] [(l, ''9,10'')] l t
     = compare_alleles [Fin 9, Fin 10] [Fin 9, Fin 10] t"
  "score_locus ex_float [(l, ''9,10'')] [(l, ''9'')] l t
     = compare_alleles [Fin 9, Fin 10] [Fin 9] t"
  "score_locus ex_float [(l, ''9,10'')] [(l, ''12,14'')] l t
     = compare_alleles [Fin 9, Fin 10] [Fin 12, Fin 14] t"
  "score_locus ex_float [(l, ''-'')] [(l, cv)] l t = Inr (t\<lparr>inconclusive := inconclusive t + 1\<rparr>)"
  "score_locus ex_float [(l, qv)] [(l, ''-'')] l t = Inr (t\<lparr>inconclusive := inconclusive t + 1\<rparr>)"
  "score_locus ex_float [(l, ''abc'')] [(l, ''12'')] l t = Inl ValueError"
  by (simp_all add: score_locus_def get_default_def strip_ex parse_ex missing_def)

lemma score_loci_ex:
  "score_loci ex_float (ex_profile a qv qv6) (ex_profile b cv cv6)
     [''L1'', ''L2'', ''L3'', ''L4'', ''L5'', ''L6''] t
   = (case score_locus ex_float [(''L1'', qv)] [(''L1'', cv)] ''L1'' t of Inl e \<Rightarrow> Inl e | Inr t1 \<Rightarrow>
     (case score_locus ex_float [(''L2'', qv)] [(''L2'', cv)] ''L2'' t1 of Inl e \<Rightarrow> Inl e | Inr t2 \<Rightarrow>
     (case score_locus ex_float [(''L3'', qv)] [(''L3'', cv)] ''L3'' t2 of Inl e \<Rightarrow> Inl e | Inr t3 \<Rightarrow>
     (case score_locus ex_float [(''L4'', qv)] [(''L4'', cv)] ''L4'' t3 of Inl e \<Rightarrow> Inl e | Inr t4 \<Rightarrow>
     (case score_locus ex_float [(''L5'', qv)] [(''L5'', cv)] ''L5'' t4 of Inl e \<Rightarrow> Inl e | Inr t5 \<Rightarrow>
       score_locus ex_float [(''L6'', qv6)] [(''L6'', cv6)] ''L6'' t5)))))"
  by (simp add: score_locus_ex [OF ex_profile_get(1) ex_profile_get(1)]
        score_locus_ex [OF ex_profile_get(2) ex_profile_get(2)]
        score_locus_ex [OF ex_profile_get(3) ex_profile_get(3)]
        score_locus_ex [OF ex_profile_get(4) ex_profile_get(4)]
        score_locus_ex [OF ex_profile_get(5) ex_profile_get(5)]
        score_locus_ex [OF ex_profile_get(6) ex_profile_get(6)] split: sum.splits)

lemma score_loci_ex_vals:
  "score_loci ex_float (ex_profile a ''9,10'' ''-'') (ex_profile b ''9,11'' cv6)
     [''L1'', ''L2'', ''L3'', ''L4'', ''L5'', ''L6''] init_tally = Inr ex_tally"
  "score_loci ex_float (ex_profile a ''9,10'' ''-'') (ex_profile b ''9,10'' cv6)
     [''L1'', ''L2'', ''L3'', ''L4'', ''L5'', ''L6''] init_tally
     = Inr (ex_tally\<lparr>identity_matches := 5\<rparr>)"
  "score_loci ex_float (ex_profile a ''9,10'' ''-'') (ex_profile b ''12,14'' cv6)
     [''L1'', ''L2'', ''L3'', ''L4'', ''L5'', ''L6''] init_tally
     = Inr (ex_tally\<lparr>clr_acc := clr_exc, consistent := 0, exclusions := 5\<rparr>)"
  "score_loci ex_float (ex_profile a ''9,10'' ''-'') (ex_profile b ''9'' cv6)
     [''L1'', ''L2'', ''L3'', ''L4'', ''L5'', ''L6''] init_tally
     = Inr (ex_tally\<lparr>clr_acc := clr_hom\<rparr>)"
  "score_loci ex_float (ex_profile a ''9,10'' ''abc'') (ex_profile b ''9,11'' ''12'')
     [''L1'', ''L2'', ''L3'', ''L4'', ''L5'', ''L6''] init_tally = Inl ValueError"
  "score_loci ex_float (ex_profile a ''9,10'' ''abc'') (ex_profile b ''9,11'' ''-'')
     [''L1'', ''L2'', ''L3'', ''L4'', ''L5'', ''L6''] init_tally = Inr ex_tally"
  by (simp_all add: score_loci_ex score_locus_vals compare_ex init_tally_def ex_tally_def
        lr_defs float_evals del: score_loci.simps)

lemma ex_score_loci:
  "score_loci ex_float ex_query ex_row (loci_of ex_query) init_tally = Inr ex_tally"
  by (simp add: ex_query_def ex_row_def ex_profile_loci score_loci_ex_vals del: score_loci.simps)

lemma admit_ex:
  "admit pid ex_tally = Inr (Some (ex_candidate pid))"
  "admit pid (ex_tally\<lparr>identity_matches := 5\<rparr>) = Inr None"
  "admit pid (ex_tally\<lparr>clr_acc := clr_exc, consistent := 0, exclusions := 5\<rparr>) = Inr None"
  "admit pid (ex_tally\<lparr>clr_acc := clr_hom\<rparr>) = Inr (Some (ex_candidate_hom pid))"
  by (simp_all add: admit_def ex_tally_def ex_candidate_def ex_candidate_hom_def lr_defs
        float_evals)

lemma score_candidate_ex:
  "b \<noteq> a \<Longrightarrow>
   score_candidate ex_float (ex_profile a qv qv6) a [''L1'', ''L2'', ''L3'', ''L4'', ''L5'', ''L6'']
       (ex_profile b cv cv6)
     = (case score_loci ex_float (ex_profile a qv qv6) (ex_profile b cv cv6)
              [''L1'', ''L2'', ''L3'', ''L4'', ''L5'', ''L6''] init_tally of
          Inl e \<Rightarrow> Inl e | Inr t \<Rightarrow> admit b t)"
  by (simp add: score_candidate_def ex_profile_id del: score_loci.simps)

lemma ex_score_candidate:
  "score_candidate ex_float ex_query ''Q1'' (loci_of ex_query) ex_row
     = Inr (Some (ex_candidate ''P1''))"
  by (simp add: ex_query_def ex_row_def ex_profile_loci score_candidate_ex score_loci_ex_vals
        admit_ex del: score_loci.simps)

lemma match_single_ex:
  "match_single pf (ex_profile a qv qv6) db
     = (case scan_rows pf (ex_profile a qv qv6) a [''L1'', ''L2'', ''L3'', ''L4'', ''L5'', ''L6''] db [] of
          Inl e \<Rightarrow> Inl e
        | Inr candidates \<Rightarrow> Inr (take 10 (sort_key (\<lambda>x. rank (fneg (clr x))) candidates)))"
  by (simp add: match_single_def ex_profile_id ex_profile_loci)

lemma rank_ex:
  "rank (fneg (clr (ex_candidate a))) = (0, - (3619791367163787 / 8796093022208))"
  "rank (fneg (clr (ex_candidate_hom a))) = (0, - (3619791367163787 / 274877906944))"
  by (simp_all add: ex_candidate_def ex_candidate_hom_def lr_defs)

lemmas ex_rows = score_candidate_ex score_loci_ex_vals admit_ex rank_ex

lemma ex_present:
  "filter (both_present (ex_profile a ''9,10'' ''-'') (ex_profile b ''9,10'' ''12''))
     [''L1'', ''L2'', ''L3'', ''L4'', ''L5'', ''L6''] = [''L1'', ''L2'', ''L3'', ''L4'', ''L5'']"
  "filter (both_present (ex_profile a ''9,10'' ''-'') (ex_profile b ''9,11'' ''12''))
     [''L1'', ''L2'', ''L3'', ''L4'', ''L5'', ''L6''] = [''L1'', ''L2'', ''L3'', ''L4'', ''L5'']"
  "filter (\<lambda>l. both_present (ex_profile a ''9,10'' ''-'') (ex_profile b ''9,10'' ''12'') l \<and>
               same_alleles ex_float (ex_profile a ''9,10'' ''-'') (ex_profile b ''9,10'' ''12'') l)
     [''L1'', ''L2'', ''L3'', ''L4'', ''L5'', ''L6''] = [''L1'', ''L2'', ''L3'', ''L4'', ''L5'']"
  by (simp_all add: both_present_def same_alleles_def ex_profile_get strip_ex parse_ex missing_def
        py_set_defs)

section \<open>From rows to the ranking\<close>

lemma admit_Some:
  assumes "admit cid t = Inr (Some c)"
  shows "exclusions t \<le> 4" and "5 \<le> consistent t"
    and "\<not> (compared t > 0 \<and> real_of_int (identity_matches t) / real_of_int (compared t) > 0.80)"
    and "person_id c = cid" and "clr c = clr_acc t"
  using assms by (auto simp: admit_def split: if_splits sum.splits)

lemma score_candidate_Some:
  assumes "score_candidate pf q qid loci row = Inr (Some c)"
  shows "getitem row ''PersonID'' = Inr (person_id c) \<and> person_id c \<noteq> qid \<and>
         (\<exists>t. score_loci pf q row loci init_tally = Inr t \<and>
              admit (person_id c) t = Inr (Some c))"
proof -
  from assms obtain cid t where
    a: "getitem row ''PersonID'' = Inr cid" "cid \<noteq> qid"
       "score_loci pf q row loci init_tally = Inr t" "admit cid t = Inr (Some c)"
    by (auto simp: score_candidate_def split: sum.splits if_splits)
  from admit_Some(4) [OF a(4)] a show ?thesis by auto
qed

lemma score_candidate_clr:
  assumes "score_candidate pf q qid loci row = Inr (Some c)"
  shows "nonneg_d (clr c)"
proof -
  from score_candidate_Some [OF assms] obtain t where
    t: "score_loci pf q row loci init_tally = Inr t" "admit (person_id c) t = Inr (Some c)"
    by blast
  from score_loci_clr [OF t(1) init_tally_clr] admit_Some(5) [OF t(2)] show ?thesis
    by simp
qed

lemma scan_rows_survivors:
  "scan_rows pf q qid loci db acc = Inr cs \<Longrightarrow> cs = acc @ survivors pf q qid loci db"
proof (induction db arbitrary: acc)
  case Nil
  then show ?case by (simp add: survivors_def)
next
  case (Cons row db)
  show ?case
  proof (cases "score_candidate pf q qid loci row")
    case (Inl e)
    with Cons.prems show ?thesis by simp
  next
    case (Inr r)
    show ?thesis
    proof (cases r)
      case None
      with Inr Cons.prems have "scan_rows pf q qid loci db acc = Inr cs" by simp
      from Cons.IH [OF this] Inr None show ?thesis by (simp add: survivors_def)
    next
      case (Some c)
      with Inr Cons.prems have "scan_rows pf q qid loci db (acc @ [c]) = Inr cs" by simp
      from Cons.IH [OF this] Inr Some show ?thesis by (simp add: survivors_def)
    qed
  qed
qed

lemma scan_rows_raises:
  "row \<in> set db \<Longrightarrow> score_candidate pf q qid loci row = Inl e \<Longrightarrow>
     \<exists>e'. scan_rows pf q qid loci db acc = Inl e'"
proof (induction db arbitrary: acc)
  case Nil
  then show ?case by simp
next
  case (Cons r db)
  then show ?case
    by (cases "score_candidate pf q qid loci r") (auto split: option.splits)
qed

lemma survivors_mem:
  "c \<in> set (survivors pf q qid loci db) \<Longrightarrow>
     \<exists>row\<in>set db. score_candidate pf q qid loci row = Inr (Some c)"
  by (induction db) (auto simp: survivors_def split: sum.splits option.splits)

lemma survivors_clr:
  "c \<in> set (survivors pf q qid loci db) \<Longrightarrow> nonneg_d (clr c)"
  using survivors_mem score_candidate_clr by blast

lemma match_single_Inr:
  assumes "match_single pf q db = Inr r"
  shows "\<exists>qid. getitem q ''PersonID'' = Inr qid \<and>
           r = take 10 (sort_key (\<lambda>x. rank (fneg (clr x))) (survivors pf q qid (loci_of q) db))"
proof -
  from assms obtain qid cs where
    a: "getitem q ''PersonID'' = Inr qid"
       "scan_rows pf q qid (loci_of q) db [] = Inr cs"
       "r = take 10 (sort_key (\<lambda>x. rank (fneg (clr x))) cs)"
    by (auto simp: match_single_def split: sum.splits)
  from scan_rows_survivors [OF a(2)] a show ?thesis by simp
qed

lemma ranking_mem:
  assumes "match_single pf q db = Inr r" and "c \<in> set r"
  shows "\<exists>qid. getitem q ''PersonID'' = Inr qid \<and>
           (\<exists>row\<in>set db. score_candidate pf q qid (loci_of q) row = Inr (Some c))"
proof -
  from match_single_Inr [OF assms(1)] obtain qid where
    a: "getitem q ''PersonID'' = Inr qid"
       "r = take 10 (sort_key (\<lambda>x. rank (fneg (clr x))) (survivors pf q qid (loci_of q) db))"
    by blast
  from assms(2) a(2) have "c \<in> set (survivors pf q qid (loci_of q) db)"
    by (auto dest: in_set_takeD)
  from survivors_mem [OF this] a(1) show ?thesis by blast
qed

section \<open>Order of the ranking\<close>

lemma descending_sort_key:
  assumes "\<forall>c\<in>set cs. nonneg_d (clr c)"
  shows "sorted_wrt (\<lambda>a b. fle (clr b) (clr a)) (sort_key (\<lambda>x. rank (fneg (clr x))) cs)"
proof -
  let ?s = "sort_key (\<lambda>x. rank (fneg (clr x))) cs"
  have "sorted (map (\<lambda>x. rank (fneg (clr x))) ?s)"
    by (rule sorted_sort_key)
  then have "sorted_wrt (\<lambda>a b. rank (fneg (clr a)) \<le> rank (fneg (clr b))) ?s"
    by (simp add: sorted_map)
  moreover have "fle (clr b) (clr a)"
    if "a \<in> set ?s" "b \<in> set ?s" "rank (fneg (clr a)) \<le> rank (fneg (clr b))" for a b
  proof -
    from that(1,2) assms have "clr a \<noteq> NaN" "clr b \<noteq> NaN"
      by (auto dest: nonneg_d_not_NaN)
    with that(3) show ?thesis
      by (simp add: rank_fneg_le)
  qed
  ultimately show ?thesis
    by (rule sorted_wrt_mono_rel [rotated])
qed

lemma filter_take_prefix:
  "filter P (take n xs) = take (length (filter P (take n xs))) (filter P xs)"
proof -
  have "filter P xs = filter P (take n xs) @ filter P (drop n xs)"
    by (metis append_take_drop_id filter_append)
  then show ?thesis by simp
qed

lemma subseq_pair_nth:
  assumes "i < j" "j < length xs"
  shows "subseq [xs ! i, xs ! j] xs"
proof -
  from assms have i: "i < length xs" by simp
  have "xs = take i xs @ xs ! i # drop (Suc i) xs"
    by (rule id_take_nth_drop [OF i])
  moreover have "xs ! j \<in> set (drop (Suc i) xs)"
    using assms by (auto simp: in_set_conv_nth intro!: exI [of _ "j - Suc i"])
  then have "subseq [xs ! j] (drop (Suc i) xs)"
    by (simp add: subseq_singleton_left)
  then have "subseq (xs ! i # [xs ! j]) (xs ! i # drop (Suc i) xs)"
    by (rule subseq_Cons2)
  then have "subseq [xs ! i, xs ! j] (take i xs @ xs ! i # drop (Suc i) xs)"
    by (rule subseq_drop_many)
  ultimately show ?thesis by simp
qed

section \<open>Rows behind the ranking\<close>

lemma survivors_Cons:
  "survivors pf q qid loci (row # db)
     = (case score_candidate pf q qid loci row of
          Inr (Some c) \<Rightarrow> c # survivors pf q qid loci db
        | _ \<Rightarrow> survivors pf q qid loci db)"
  by (simp add: survivors_def split: sum.splits option.splits)

lemma survivors_row_index:
  assumes "c \<in> set (survivors pf q qid loci db)"
  shows "\<exists>i < length db. score_candidate pf q qid loci (db ! i) = Inr (Some c)"
proof -
  from survivors_mem [OF assms] obtain row where
    "row \<in> set db" "score_candidate pf q qid loci row = Inr (Some c)" by blast
  then show ?thesis
    by (auto simp: in_set_conv_nth)
qed

lemma survivors_pair_rows:
  "subseq [a, b] (survivors pf q qid loci db) \<Longrightarrow>
     \<exists>i j. i < j \<and> j < length db \<and>
           score_candidate pf q qid loci (db ! i) = Inr (Some a) \<and>
           score_candidate pf q qid loci (db ! j) = Inr (Some b)"
proof (induction db)
  case Nil
  then show ?case by (simp add: survivors_def)
next
  case (Cons row db)
  let ?sc = "score_candidate pf q qid loci"
  have shift: "\<exists>i j. i < j \<and> j < length (row # db) \<and> ?sc ((row # db) ! i) = Inr (Some a) \<and>
                 ?sc ((row # db) ! j) = Inr (Some b)"
    if "subseq [a, b] (survivors pf q qid loci db)"
  proof -
    from Cons.IH [OF that] obtain i j where
      "i < j" "j < length db" "?sc (db ! i) = Inr (Some a)" "?sc (db ! j) = Inr (Some b)"
      by blast
    then have "Suc i < Suc j \<and> Suc j < length (row # db) \<and>
               ?sc ((row # db) ! Suc i) = Inr (Some a) \<and> ?sc ((row # db) ! Suc j) = Inr (Some b)"
      by simp
    then show ?thesis by blast
  qed
  show ?case
  proof (cases "\<exists>c. ?sc row = Inr (Some c) \<and> c = a \<and> b \<in> set (survivors pf q qid loci db)")
    case True
    then have hd: "?sc row = Inr (Some a)" and "b \<in> set (survivors pf q qid loci db)"
      by auto
    from survivors_row_index [OF this(2)] obtain j where
      "j < length db" "?sc (db ! j) = Inr (Some b)" by blast
    with hd have "0 < Suc j \<and> Suc j < length (row # db) \<and>
               ?sc ((row # db) ! 0) = Inr (Some a) \<and> ?sc ((row # db) ! Suc j) = Inr (Some b)"
      by simp
    then show ?thesis by blast
  next
    case False
    with Cons.prems have "subseq [a, b] (survivors pf q qid loci db)"
      by (auto simp: survivors_Cons subseq_singleton_left split: sum.splits option.splits if_splits)
    then show ?thesis by (rule shift)
  qed
qed

lemma ranking_row:
  assumes "match_single pf q db = Inr r" and "c \<in> set r"
  shows "\<exists>row\<in>set db. \<exists>t. getitem row ''PersonID'' = Inr (person_id c) \<and>
           score_loci pf q row (loci_of q) init_tally = Inr t \<and>
           admit (person_id c) t = Inr (Some c)"
proof -
  from ranking_mem [OF assms] obtain qid row where
    "row \<in> set db" "score_candidate pf q qid (loci_of q) row = Inr (Some c)" by blast
  with score_candidate_Some [OF this(2)] show ?thesis by blast
qed

section \<open>Exceptions\<close>

text \<open>Only \<open>float()\<close> raises in the loop over the loci, and whether it does at a locus does
  not depend on the counters.\<close>

lemma score_locus_raises:
  "score_locus pf q c l t = Inl e \<Longrightarrow> e = ValueError \<and> score_locus pf q c l t' = Inl ValueError"
  by (auto simp: score_locus_def compare_alleles_eval parse_alleles_def Let_def
        split: if_splits sum.splits option.splits)

lemma score_loci_raises:
  "l \<in> set loci \<Longrightarrow> score_locus pf q c l t0 = Inl e \<Longrightarrow>
     score_loci pf q c loci t = Inl ValueError"
proof (induction loci arbitrary: t)
  case Nil
  then show ?case by simp
next
  case (Cons a loci)
  show ?case
  proof (cases "score_locus pf q c a t")
    case (Inl e')
    with score_locus_raises [OF Inl] show ?thesis by simp
  next
    case (Inr t1)
    with Cons.prems score_locus_raises [OF Cons.prems(2), of t] have "l \<in> set loci"
      by auto
    from Cons.IH [OF this Cons.prems(2)] Inr show ?thesis by simp
  qed
qed

lemma find_matches_loop_raises:
  "q \<in> set queries \<Longrightarrow> match_single pf q db = Inl e \<Longrightarrow>
     \<exists>e'. find_matches_loop pf db queries acc = Inl e'"
proof (induction queries arbitrary: acc)
  case Nil
  then show ?case by simp
next
  case (Cons a queries)
  then show ?case
    by (cases "getitem a ''PersonID''"; cases "match_single pf a db") auto
qed

text \<open>No division of the program raises: a row raises \<open>KeyError\<close> or \<open>ValueError\<close> only.\<close>

lemma admit_returns:
  assumes "nonneg_d (clr_acc t)"
  shows "\<exists>r. admit cid t = Inr r"
proof (cases "clr_acc t")
  case (Fin x)
  have "rnd (x + 1) \<noteq> Fin 0" if "0 < x"
    using that by (intro rnd_ge_one) simp
  with Fin show ?thesis
    by (auto simp: admit_def py_div_def rnd_1 fadd.simps)
next
  case PInf
  then show ?thesis
    by (auto simp: admit_def py_div_def rnd_1)
next
  case NInf
  with assms show ?thesis by (simp add: nonneg_d_def)
next
  case NaN
  with assms show ?thesis by (simp add: nonneg_d_def)
qed

lemma score_candidate_errors:
  assumes "score_candidate pf q qid loci row = Inl e"
  shows "e = KeyError \<or> e = ValueError"
proof (cases "getitem row ''PersonID''")
  case (Inl e')
  with assms show ?thesis
    by (auto simp: score_candidate_def getitem_def split: option.splits)
next
  case (Inr cid)
  show ?thesis
  proof (cases "score_loci pf q row loci init_tally")
    case (Inl e')
    have "score_loci pf q c ls t = Inl e' \<Longrightarrow> e' = ValueError" for c ls t e'
      by (induction ls arbitrary: t) (auto split: sum.splits dest: score_locus_raises)
    with Inl Inr assms show ?thesis
      by (auto simp: score_candidate_def split: if_splits)
  next
    case t: (Inr t)
    from admit_returns [OF score_loci_clr [OF t init_tally_clr], of cid] t Inr assms
    show ?thesis
      by (auto simp: score_candidate_def split: if_splits)
  qed
qed

section \<open>Claims about one locus\<close>







text \<open>
  C7. A locus at which the trimmed value of either side is empty or \<open>-\<close>, or which either
  record does not hold, is counted as inconclusive and nothing else happens: the likelihood
  ratio keeps its value (the factor is 1.0), the counter \<open>compared\<close> and the other counters
  do not move, and no value is parsed, so the locus cannot raise.
\<close>

theorem missing_locus_inconclusive:
  assumes "missing (strip (get_default q l ''-'')) \<or> missing (strip (get_default c l ''-''))
           \<or> map_of q l = None \<or> map_of c l = None"
  shows "\<exists>t'. score_locus pf q c l t = Inr t' \<and> clr_acc t' = clr_acc t \<and>
           inconclusive t' = inconclusive t + 1 \<and> compared t' = compared t \<and>
           identity_matches t' = identity_matches t \<and> consistent t' = consistent t \<and>
           mutated t' = mutated t \<and> exclusions t' = exclusions t"
proof -
  have "\<not> both_present q c l"
    using assms by (auto simp: both_present_def get_default_def strip_ex missing_def)
  then show ?thesis
    by (simp add: score_locus_missing)
qed

theorem missing_locus_inconclusive_witness:
  "score_locus ex_float ex_query ex_row ''L6'' init_tally
     = Inr (init_tally\<lparr>inconclusive := 1\<rparr>) \<and>
   score_locus ex_float [(''L7'', ''9'')] [(''L7'', '' - '')] ''L7'' init_tally
     = Inr (init_tally\<lparr>inconclusive := 1\<rparr>) \<and>
   score_locus ex_float ex_query ex_row ''L7'' init_tally
     = Inr (init_tally\<lparr>inconclusive := 1\<rparr>)"
proof -
  have a: "missing (strip (get_default ex_query ''L6'' ''-''))"
    by (simp add: ex_query_def ex_profile_get strip_ex missing_def)
  have b: "missing (strip (get_default [(''L7'', '' - '')] ''L7'' ''-''))"
    by (simp add: get_default_def strip_ex missing_def)
  have c: "map_of ex_row ''L7'' = None"
    by (simp add: ex_row_def ex_profile_def)
  from a b c
    missing_locus_inconclusive [of ex_query "''L6''" ex_row ex_float init_tally]
    missing_locus_inconclusive [of "[(''L7'', ''9'')]" "''L7''" "[(''L7'', '' - '')]" ex_float
      init_tally]
    missing_locus_inconclusive [of ex_query "''L7''" ex_row ex_float init_tally]
  show ?thesis
    by (auto simp: init_tally_def)
qed

section \<open>Claims about the counters\<close>

text \<open>
  C3, as the code has it. After the loop over the loci, the four counters \<open>consistent\<close>,
  \<open>mutated\<close>, \<open>inconclusive\<close> and \<open>exclusions\<close> add up to the number of loci visited, which
  is the number of loci compared plus the number of loci at which a side is missing: a
  missing locus is counted as inconclusive without being compared.
\<close>

theorem tally_sum_all_loci:
  assumes "score_loci pf q c loci init_tally = Inr t"
  shows "consistent t + mutated t + inconclusive t + exclusions t = int (length loci) \<and>
         compared t = int (length (filter (both_present q c) loci)) \<and>
         consistent t + mutated t + inconclusive t + exclusions t
           = compared t + int (length (filter (\<lambda>l. \<not> both_present q c l) loci))"
proof -
  from score_loci_counts [OF assms]
  have s: "consistent t + mutated t + inconclusive t + exclusions t = int (length loci)"
    and k: "compared t = int (length (filter (both_present q c) loci))"
    by (simp_all add: init_tally_def)
  have "length loci = length (filter (both_present q c) loci)
          + length (filter (\<lambda>l. \<not> both_present q c l) loci)"
    by (simp add: sum_length_filter_compl)
  with s k show ?thesis by simp
qed

theorem tally_sum_all_loci_witness:
  "score_loci ex_float ex_query ex_row (loci_of ex_query) init_tally = Inr ex_tally \<and>
   consistent ex_tally + mutated ex_tally + inconclusive ex_tally + exclusions ex_tally = 6 \<and>
   compared ex_tally = 5 \<and>
   int (length (filter (\<lambda>l. \<not> both_present ex_query ex_row l) (loci_of ex_query))) = 1"
proof -
  note w = tally_sum_all_loci [OF ex_score_loci]
  have v: "consistent ex_tally + mutated ex_tally + inconclusive ex_tally + exclusions ex_tally = 6"
    "compared ex_tally = 5"
    by (simp_all add: ex_tally_def)
  from w v ex_score_loci show ?thesis
    by linarith
qed

text \<open>
  C3, as the specification has it, fails: the query \<open>ex_query\<close> has six loci, the sixth
  missing; the row \<open>ex_row\<close> is scored and survives both filters, five loci are compared,
  and the four counters add up to six.
\<close>

theorem tally_sum_counterexample:
  "score_loci ex_float ex_query ex_row (loci_of ex_query) init_tally = Inr ex_tally \<and>
   score_candidate ex_float ex_query ''Q1'' (loci_of ex_query) ex_row
     = Inr (Some (ex_candidate ''P1'')) \<and>
   length (loci_of ex_query) = 6 \<and>
   length (filter (both_present ex_query ex_row) (loci_of ex_query)) = 5 \<and>
   compared ex_tally = 5 \<and>
   consistent ex_tally + mutated ex_tally + inconclusive ex_tally + exclusions ex_tally = 6 \<and>
   consistent ex_tally + mutated ex_tally + inconclusive ex_tally + exclusions ex_tally
     \<noteq> compared ex_tally"
proof -
  have "length (loci_of ex_query) = 6"
    and "length (filter (both_present ex_query ex_row) (loci_of ex_query)) = 5"
    unfolding ex_query_def ex_row_def ex_profile_loci ex_present by simp_all
  moreover have "score_candidate ex_float ex_query ''Q1'' (loci_of ex_query) ex_row
     = Inr (Some (ex_candidate ''P1''))"
    by (rule ex_score_candidate)
  moreover have "compared ex_tally = 5"
    and "consistent ex_tally + mutated ex_tally + inconclusive ex_tally + exclusions ex_tally = 6"
    by (simp_all add: ex_tally_def)
  ultimately show ?thesis
    using ex_score_loci by simp
qed

section \<open>Claims about the filters\<close>

text \<open>
  C4. A candidate whose comparison ends with more than four exclusions or fewer than five
  consistent loci produces no score, whatever its likelihood ratio. Every entry of the
  ranking is the score of a row that ended with at most four exclusions and at least five
  consistent loci, so when the identifier of the rejected row is unique in the database it
  does not appear in the ranking.
\<close>

theorem threshold_rejection:
  "(getitem row ''PersonID'' = Inr cid \<and> score_loci pf q row loci init_tally = Inr t \<and>
    (exclusions t > 4 \<or> consistent t < 5) \<longrightarrow>
      score_candidate pf q qid loci row = Inr None) \<and>
   (match_single pf q db = Inr r \<and> c \<in> set r \<longrightarrow>
      (\<exists>row'\<in>set db. \<exists>t'. getitem row' ''PersonID'' = Inr (person_id c) \<and>
          score_loci pf q row' (loci_of q) init_tally = Inr t' \<and> clr c = clr_acc t' \<and>
          exclusions t' \<le> 4 \<and> 5 \<le> consistent t')) \<and>
   (match_single pf q db = Inr r \<and> row \<in> set db \<and> getitem row ''PersonID'' = Inr cid \<and>
    (\<forall>row'\<in>set db. getitem row' ''PersonID'' = Inr cid \<longrightarrow> row' = row) \<and>
    score_loci pf q row (loci_of q) init_tally = Inr t \<and>
    (exclusions t > 4 \<or> consistent t < 5) \<longrightarrow>
      cid \<notin> person_id ` set r)"
proof -
  have a: "score_candidate pf q qid loci row = Inr None"
    if "getitem row ''PersonID'' = Inr cid" "score_loci pf q row loci init_tally = Inr t"
       "exclusions t > 4 \<or> consistent t < 5"
    using that by (simp add: score_candidate_def admit_def)
  have b: "\<exists>row'\<in>set db. \<exists>t'. getitem row' ''PersonID'' = Inr (person_id c) \<and>
          score_loci pf q row' (loci_of q) init_tally = Inr t' \<and> clr c = clr_acc t' \<and>
          exclusions t' \<le> 4 \<and> 5 \<le> consistent t'"
    if "match_single pf q db = Inr r" "c \<in> set r" for c
  proof -
    from ranking_row [OF that] obtain row' t' where
      r: "row' \<in> set db" "getitem row' ''PersonID'' = Inr (person_id c)"
         "score_loci pf q row' (loci_of q) init_tally = Inr t'"
         "admit (person_id c) t' = Inr (Some c)"
      by blast
    from admit_Some [OF r(4)] r show ?thesis by blast
  qed
  have c: "cid \<notin> person_id ` set r"
    if m: "match_single pf q db = Inr r" and "row \<in> set db"
      and id: "getitem row ''PersonID'' = Inr cid"
      and uniq: "\<forall>row'\<in>set db. getitem row' ''PersonID'' = Inr cid \<longrightarrow> row' = row"
      and t: "score_loci pf q row (loci_of q) init_tally = Inr t"
      and bad: "exclusions t > 4 \<or> consistent t < 5"
  proof
    assume "cid \<in> person_id ` set r"
    then obtain c where c: "c \<in> set r" "person_id c = cid" by auto
    from b [OF m c(1)] c(2) obtain row' t' where
      r: "row' \<in> set db" "getitem row' ''PersonID'' = Inr cid"
         "score_loci pf q row' (loci_of q) init_tally = Inr t'"
         "exclusions t' \<le> 4" "5 \<le> consistent t'"
      by auto
    from uniq r(1,2) have "row' = row" by blast
    with r(3) t have "t' = t" by simp
    with r(4,5) bad show False by auto
  qed
  from a b c show ?thesis by blast
qed

theorem threshold_rejection_witness:
  "score_candidate ex_float ex_query ''Q1'' (loci_of ex_query) (ex_profile ''P3'' ''12,14'' ''12'')
     = Inr None \<and>
   match_single ex_float ex_query [ex_profile ''P3'' ''12,14'' ''12'', ex_row]
     = Inr [ex_candidate ''P1''] \<and>
   ''P3'' \<notin> person_id ` set [ex_candidate ''P1'']"
proof -
  let ?row = "ex_profile ''P3'' ''12,14'' ''12''"
  let ?t = "ex_tally\<lparr>clr_acc := clr_exc, consistent := 0, exclusions := 5\<rparr>"
  have id: "getitem ?row ''PersonID'' = Inr ''P3''"
    by (simp add: ex_profile_id)
  have t: "score_loci ex_float ex_query ?row (loci_of ex_query) init_tally = Inr ?t"
    by (simp add: ex_query_def ex_profile_loci score_loci_ex_vals del: score_loci.simps)
  have bad: "exclusions ?t > 4 \<or> consistent ?t < 5"
    by simp
  have m: "match_single ex_float ex_query [?row, ex_row] = Inr [ex_candidate ''P1'']"
    by (simp add: ex_query_def ex_row_def match_single_ex ex_rows del: score_loci.simps)
  have uniq: "\<forall>row'\<in>set [?row, ex_row]. getitem row' ''PersonID'' = Inr ''P3'' \<longrightarrow> row' = ?row"
    by (simp add: ex_row_def ex_profile_id)
  note w = threshold_rejection [of ?row "''P3''" ex_float ex_query "loci_of ex_query" ?t "''Q1''"
      "[?row, ex_row]" "[ex_candidate ''P1'']"]
  from w id t bad
  have a: "score_candidate ex_float ex_query ''Q1'' (loci_of ex_query) ?row = Inr None"
    by blast
  have "?row \<in> set [?row, ex_row]" by simp
  with w m id uniq t bad have "''P3'' \<notin> person_id ` set [ex_candidate ''P1'']"
    by blast
  with a m show ?thesis by blast
qed

text \<open>
  C5. A candidate for which some locus is compared and more than 0.80 of the compared loci
  have identical allele sets on both sides produces no score, whatever its likelihood ratio,
  and when its identifier is unique in the database it does not appear in the ranking.
\<close>

theorem duplicate_rejection:
  "(getitem row ''PersonID'' = Inr cid \<and> score_loci pf q row loci init_tally = Inr t \<and>
    0 < length (filter (both_present q row) loci) \<and>
    real (length (filter (\<lambda>l. both_present q row l \<and> same_alleles pf q row l) loci))
      / real (length (filter (both_present q row) loci)) > 0.80 \<longrightarrow>
      score_candidate pf q qid loci row = Inr None) \<and>
   (match_single pf q db = Inr r \<and> row \<in> set db \<and> getitem row ''PersonID'' = Inr cid \<and>
    (\<forall>row'\<in>set db. getitem row' ''PersonID'' = Inr cid \<longrightarrow> row' = row) \<and>
    score_loci pf q row (loci_of q) init_tally = Inr t \<and>
    0 < length (filter (both_present q row) (loci_of q)) \<and>
    real (length (filter (\<lambda>l. both_present q row l \<and> same_alleles pf q row l) (loci_of q)))
      / real (length (filter (both_present q row) (loci_of q))) > 0.80 \<longrightarrow>
      cid \<notin> person_id ` set r)"
proof -
  have ratio: "compared t > 0 \<and> real_of_int (identity_matches t) / real_of_int (compared t) > 0.80"
    if "score_loci pf q row ls init_tally = Inr t"
       "0 < length (filter (both_present q row) ls)"
       "real (length (filter (\<lambda>l. both_present q row l \<and> same_alleles pf q row l) ls))
          / real (length (filter (both_present q row) ls)) > 0.80" for ls
  proof -
    from score_loci_counts [OF that(1)]
    have "compared t = int (length (filter (both_present q row) ls))"
      and "identity_matches t
             = int (length (filter (\<lambda>l. both_present q row l \<and> same_alleles pf q row l) ls))"
      by (simp_all add: init_tally_def)
    with that(2,3) show ?thesis by simp
  qed
  have a: "score_candidate pf q qid loci row = Inr None"
    if "getitem row ''PersonID'' = Inr cid" "score_loci pf q row loci init_tally = Inr t"
       "0 < length (filter (both_present q row) loci)"
       "real (length (filter (\<lambda>l. both_present q row l \<and> same_alleles pf q row l) loci))
          / real (length (filter (both_present q row) loci)) > 0.80"
    using that(1,2) ratio [OF that(2,3,4)] by (simp add: score_candidate_def admit_def)
  have c: "cid \<notin> person_id ` set r"
    if m: "match_single pf q db = Inr r" and "row \<in> set db"
      and id: "getitem row ''PersonID'' = Inr cid"
      and uniq: "\<forall>row'\<in>set db. getitem row' ''PersonID'' = Inr cid \<longrightarrow> row' = row"
      and t: "score_loci pf q row (loci_of q) init_tally = Inr t"
      and n: "0 < length (filter (both_present q row) (loci_of q))"
      and bad: "real (length (filter (\<lambda>l. both_present q row l \<and> same_alleles pf q row l) (loci_of q)))
          / real (length (filter (both_present q row) (loci_of q))) > 0.80"
  proof
    assume "cid \<in> person_id ` set r"
    then obtain c where c: "c \<in> set r" "person_id c = cid" by auto
    from ranking_row [OF m c(1)] c(2) obtain row' t' where
      r: "row' \<in> set db" "getitem row' ''PersonID'' = Inr cid"
         "score_loci pf q row' (loci_of q) init_tally = Inr t'"
         "admit cid t' = Inr (Some c)"
      by auto
    from uniq r(1,2) have "row' = row" by blast
    with r(3) t have "t' = t" by simp
    with admit_Some(3) [OF r(4)] ratio [OF t n bad] show False by simp
  qed
  from a c show ?thesis by blast
qed

theorem duplicate_rejection_witness:
  "score_candidate ex_float ex_query ''Q1'' (loci_of ex_query) (ex_profile ''P2'' ''9,10'' ''12'')
     = Inr None \<and>
   match_single ex_float ex_query [ex_profile ''P2'' ''9,10'' ''12'', ex_row]
     = Inr [ex_candidate ''P1''] \<and>
   ''P2'' \<notin> person_id ` set [ex_candidate ''P1'']"
proof -
  let ?row = "ex_profile ''P2'' ''9,10'' ''12''"
  let ?t = "ex_tally\<lparr>identity_matches := 5\<rparr>"
  have id: "getitem ?row ''PersonID'' = Inr ''P2''"
    by (simp add: ex_profile_id)
  have t: "score_loci ex_float ex_query ?row (loci_of ex_query) init_tally = Inr ?t"
    by (simp add: ex_query_def ex_profile_loci score_loci_ex_vals del: score_loci.simps)
  have five: "length (filter (both_present ex_query ?row) (loci_of ex_query)) = 5"
    "length (filter (\<lambda>l. both_present ex_query ?row l \<and>
                 same_alleles ex_float ex_query ?row l) (loci_of ex_query)) = 5"
    unfolding ex_query_def ex_profile_loci ex_present by simp_all
  have n: "0 < length (filter (both_present ex_query ?row) (loci_of ex_query))"
    unfolding five by simp
  have bad: "real (length (filter (\<lambda>l. both_present ex_query ?row l \<and>
                 same_alleles ex_float ex_query ?row l) (loci_of ex_query)))
          / real (length (filter (both_present ex_query ?row) (loci_of ex_query))) > 0.80"
    unfolding five by simp
  have m: "match_single ex_float ex_query [?row, ex_row] = Inr [ex_candidate ''P1'']"
    by (simp add: ex_query_def ex_row_def match_single_ex ex_rows del: score_loci.simps)
  have uniq: "\<forall>row'\<in>set [?row, ex_row]. getitem row' ''PersonID'' = Inr ''P2'' \<longrightarrow> row' = ?row"
    by (simp add: ex_row_def ex_profile_id)
  note w = duplicate_rejection [of ?row "''P2''" ex_float ex_query "loci_of ex_query" ?t "''Q1''"
      "[?row, ex_row]" "[ex_candidate ''P1'']"]
  from w id t n bad
  have a: "score_candidate ex_float ex_query ''Q1'' (loci_of ex_query) ?row = Inr None"
    by blast
  have "?row \<in> set [?row, ex_row]" by simp
  with w m id uniq t n bad have "''P2'' \<notin> person_id ` set [ex_candidate ''P1'']"
    by blast
  with a m show ?thesis by blast
qed

text \<open>
  C8. A row whose \<open>PersonID\<close> equals the query's is skipped before anything of it is
  scored, even a genotype that would not parse, and no entry of the ranking carries the
  query's identifier.
\<close>

theorem self_row_skipped:
  "(getitem row ''PersonID'' = Inr qid \<longrightarrow> score_candidate pf q qid loci row = Inr None) \<and>
   (match_single pf q db = Inr r \<and> getitem q ''PersonID'' = Inr qid \<longrightarrow>
      (\<forall>c\<in>set r. person_id c \<noteq> qid))"
proof -
  have a: "getitem row ''PersonID'' = Inr qid \<longrightarrow> score_candidate pf q qid loci row = Inr None"
    by (simp add: score_candidate_def)
  have b: "person_id c \<noteq> qid"
    if "match_single pf q db = Inr r" "getitem q ''PersonID'' = Inr qid" "c \<in> set r" for c
  proof -
    from ranking_mem [OF that(1) that(3)] that(2) obtain row' where
      "score_candidate pf q qid (loci_of q) row' = Inr (Some c)" by auto
    from score_candidate_Some [OF this] show ?thesis by simp
  qed
  from a b show ?thesis by blast
qed

theorem self_row_skipped_witness:
  "score_candidate ex_float ex_query ''Q1'' (loci_of ex_query) (ex_profile ''Q1'' ''abc'' ''abc'')
     = Inr None \<and>
   match_single ex_float ex_query [ex_profile ''Q1'' ''abc'' ''abc'', ex_row]
     = Inr [ex_candidate ''P1''] \<and>
   person_id (ex_candidate ''P1'') \<noteq> ''Q1''"
proof -
  let ?self = "ex_profile ''Q1'' ''abc'' ''abc''"
  have a: "getitem ?self ''PersonID'' = Inr ''Q1''"
    by (simp add: ex_profile_id)
  have q: "getitem ex_query ''PersonID'' = Inr ''Q1''"
    by (simp add: ex_query_def ex_profile_id)
  note w = self_row_skipped [of ?self "''Q1''" ex_float ex_query "loci_of ex_query"
      "[?self, ex_row]" "[ex_candidate ''P1'']"]
  from w a have s: "score_candidate ex_float ex_query ''Q1'' (loci_of ex_query) ?self = Inr None"
    by blast
  have m: "match_single ex_float ex_query [?self, ex_row] = Inr [ex_candidate ''P1'']"
    using s by (simp add: match_single_def q ex_score_candidate del: score_loci.simps)
  from w m q have "\<forall>c\<in>set [ex_candidate ''P1'']. person_id c \<noteq> ''Q1''"
    by blast
  with s m show ?thesis by simp
qed

section \<open>Claims about the ranking\<close>

text \<open>
  C6. The ranking is the list of surviving scores sorted by descending \<open>clr\<close> and cut to its
  first ten: it has at most ten entries, namely ten or all the survivors, each entry has a
  \<open>clr\<close> at least that of the next, and the survivors left out have a \<open>clr\<close> no larger than any
  entry's.
\<close>

theorem ranking_sorted_top10:
  assumes "match_single pf q db = Inr r"
  shows "length r \<le> 10 \<and>
         (\<forall>i. Suc i < length r \<longrightarrow> fle (clr (r ! Suc i)) (clr (r ! i))) \<and>
         (\<exists>qid rest. getitem q ''PersonID'' = Inr qid \<and>
            length r = min 10 (length (survivors pf q qid (loci_of q) db)) \<and>
            mset (r @ rest) = mset (survivors pf q qid (loci_of q) db) \<and>
            (\<forall>a\<in>set r. \<forall>b\<in>set rest. fle (clr b) (clr a)))"
proof -
  from match_single_Inr [OF assms] obtain qid where
    qid: "getitem q ''PersonID'' = Inr qid"
    and r: "r = take 10 (sort_key (\<lambda>x. rank (fneg (clr x))) (survivors pf q qid (loci_of q) db))"
    by blast
  let ?s = "sort_key (\<lambda>x. rank (fneg (clr x))) (survivors pf q qid (loci_of q) db)"
  have srt: "sorted_wrt (\<lambda>a b. fle (clr b) (clr a)) ?s"
    by (rule descending_sort_key) (simp add: survivors_clr)
  have split: "?s = r @ drop 10 ?s"
    by (simp add: r)
  from srt split have parts: "sorted_wrt (\<lambda>a b. fle (clr b) (clr a)) (r @ drop 10 ?s)"
    by simp
  then have rs: "sorted_wrt (\<lambda>a b. fle (clr b) (clr a)) r"
    and cut: "\<forall>a\<in>set r. \<forall>b\<in>set (drop 10 ?s). fle (clr b) (clr a)"
    by (simp_all add: sorted_wrt_append)
  have len: "length r \<le> 10"
    by (simp add: r)
  have adj: "\<forall>i. Suc i < length r \<longrightarrow> fle (clr (r ! Suc i)) (clr (r ! i))"
    using rs by (simp add: sorted_wrt_iff_nth_less)
  have n: "length r = min 10 (length (survivors pf q qid (loci_of q) db))"
    by (simp add: r min.commute)
  have "mset (r @ drop 10 ?s) = mset ?s"
    using split by simp
  then have m: "mset (r @ drop 10 ?s) = mset (survivors pf q qid (loci_of q) db)"
    by simp
  from len adj qid n m cut show ?thesis
    by blast
qed

theorem ranking_sorted_top10_witness:
  "match_single ex_float ex_query [ex_row, ex_profile ''P4'' ''9'' ''12'']
     = Inr [ex_candidate_hom ''P4'',
            ex_candidate ''P1''] \<and>
   length [ex_candidate_hom ''P4'',
            ex_candidate ''P1''] \<le> 10 \<and>
   fle (clr (ex_candidate ''P1'')) (clr (ex_candidate_hom ''P4''))"
proof -
  let ?r = "[ex_candidate_hom ''P4'',
            ex_candidate ''P1'']"
  have m: "match_single ex_float ex_query [ex_row, ex_profile ''P4'' ''9'' ''12''] = Inr ?r"
    by (simp add: ex_query_def ex_row_def match_single_ex ex_rows del: score_loci.simps)
  from ranking_sorted_top10 [OF m] have "length ?r \<le> 10"
    and "\<forall>i. Suc i < length ?r \<longrightarrow> fle (clr (?r ! Suc i)) (clr (?r ! i))"
    by blast+
  from this(1) this(2) [rule_format, of 0] m show ?thesis
    by simp
qed

text \<open>
  C10. Ties are kept in the order of the database rows: the entries of the ranking with a
  given \<open>clr\<close> are an initial segment of the survivors with that \<open>clr\<close>, taken in row order,
  and two entries with equal \<open>clr\<close> are the scores of two rows that follow each other in the
  database as the entries do in the ranking. The identifier plays no part.
\<close>

theorem ranking_ties_in_row_order:
  assumes "match_single pf q db = Inr r" and "getitem q ''PersonID'' = Inr qid"
  shows "(\<exists>n. filter (\<lambda>c. clr c = k) r
                = take n (filter (\<lambda>c. clr c = k) (survivors pf q qid (loci_of q) db))) \<and>
         (\<forall>i j. i < j \<and> j < length r \<and> clr (r ! i) = clr (r ! j) \<longrightarrow>
            (\<exists>i' j'. i' < j' \<and> j' < length db \<and>
               score_candidate pf q qid (loci_of q) (db ! i') = Inr (Some (r ! i)) \<and>
               score_candidate pf q qid (loci_of q) (db ! j') = Inr (Some (r ! j))))"
proof -
  let ?s = "survivors pf q qid (loci_of q) db"
  from match_single_Inr [OF assms(1)] assms(2)
  have r: "r = take 10 (sort_key (\<lambda>x. rank (fneg (clr x))) ?s)" by auto
  have stable: "filter (\<lambda>c. clr c = v) r
                  = take (length (filter (\<lambda>c. clr c = v) r)) (filter (\<lambda>c. clr c = v) ?s)" for v
  proof -
    have "filter (\<lambda>c. clr c = v) (sort_key (\<lambda>x. rank (fneg (clr x))) ?s)
            = filter (\<lambda>c. rank (fneg (clr c)) = rank (fneg v))
                (sort_key (\<lambda>x. rank (fneg (clr x))) ?s)"
      by (simp add: rank_inj fneg_inj)
    also have "\<dots> = filter (\<lambda>c. rank (fneg (clr c)) = rank (fneg v)) ?s"
      by (rule sort_key_stable)
    finally have st: "filter (\<lambda>c. clr c = v) (sort_key (\<lambda>x. rank (fneg (clr x))) ?s)
            = filter (\<lambda>c. clr c = v) ?s"
      by (simp add: rank_inj fneg_inj)
    from filter_take_prefix [of "\<lambda>c. clr c = v" 10 "sort_key (\<lambda>x. rank (fneg (clr x))) ?s"]
    show ?thesis
      unfolding r st .
  qed
  have pairs: "\<exists>i' j'. i' < j' \<and> j' < length db \<and>
               score_candidate pf q qid (loci_of q) (db ! i') = Inr (Some (r ! i)) \<and>
               score_candidate pf q qid (loci_of q) (db ! j') = Inr (Some (r ! j))"
    if ij: "i < j" "j < length r" and eq: "clr (r ! i) = clr (r ! j)" for i j
  proof -
    let ?P = "\<lambda>c. clr c = clr (r ! j)"
    have "subseq [r ! i, r ! j] r"
      by (rule subseq_pair_nth [OF ij])
    then have "subseq (filter ?P [r ! i, r ! j]) (filter ?P r)"
      by (rule subseq_filter)
    with eq have "subseq [r ! i, r ! j] (filter ?P r)"
      by simp
    also have "subseq (filter ?P r) (filter ?P ?s)"
      by (subst stable) (rule prefix_imp_subseq [OF take_is_prefix])
    also have "subseq (filter ?P ?s) ?s"
      by (rule subseq_filter_left)
    finally show ?thesis
      by (rule survivors_pair_rows)
  qed
  have "\<exists>n. filter (\<lambda>c. clr c = k) r = take n (filter (\<lambda>c. clr c = k) ?s)"
    using stable [of k] by blast
  with pairs show ?thesis by blast
qed

theorem ranking_ties_in_row_order_witness:
  "match_single ex_float ex_query [ex_profile ''P9'' ''9,11'' ''12'', ex_row]
     = Inr [ex_candidate ''P9'', ex_candidate ''P1''] \<and>
   survivors ex_float ex_query ''Q1'' (loci_of ex_query) [ex_profile ''P9'' ''9,11'' ''12'', ex_row]
     = [ex_candidate ''P9'', ex_candidate ''P1''] \<and>
   clr (ex_candidate ''P9'') = clr (ex_candidate ''P1'') \<and>
   (\<exists>i j. i < j \<and> j < length [ex_profile ''P9'' ''9,11'' ''12'', ex_row] \<and>
      score_candidate ex_float ex_query ''Q1'' (loci_of ex_query)
          ([ex_profile ''P9'' ''9,11'' ''12'', ex_row] ! i) = Inr (Some (ex_candidate ''P9'')) \<and>
      score_candidate ex_float ex_query ''Q1'' (loci_of ex_query)
          ([ex_profile ''P9'' ''9,11'' ''12'', ex_row] ! j) = Inr (Some (ex_candidate ''P1'')))"
proof -
  let ?db = "[ex_profile ''P9'' ''9,11'' ''12'', ex_row]"
  let ?r = "[ex_candidate ''P9'', ex_candidate ''P1'']"
  have m: "match_single ex_float ex_query ?db = Inr ?r"
    by (simp add: ex_query_def ex_row_def match_single_ex ex_rows del: score_loci.simps)
  have s: "survivors ex_float ex_query ''Q1'' (loci_of ex_query) ?db = ?r"
    by (simp add: survivors_def ex_query_def ex_row_def ex_profile_loci ex_rows
          del: score_loci.simps)
  have q: "getitem ex_query ''PersonID'' = Inr ''Q1''"
    by (simp add: ex_query_def ex_profile_id)
  have e: "clr (ex_candidate ''P9'') = clr (ex_candidate ''P1'')"
    by (simp add: ex_candidate_def)
  from ranking_ties_in_row_order [OF m q, of clr_het]
  have "\<forall>i j. i < j \<and> j < length ?r \<and> clr (?r ! i) = clr (?r ! j) \<longrightarrow>
          (\<exists>i' j'. i' < j' \<and> j' < length ?db \<and>
             score_candidate ex_float ex_query ''Q1'' (loci_of ex_query) (?db ! i')
               = Inr (Some (?r ! i)) \<and>
             score_candidate ex_float ex_query ''Q1'' (loci_of ex_query) (?db ! j')
               = Inr (Some (?r ! j)))"
    by blast
  from this [rule_format, of 0 1] e m s show ?thesis
    by simp
qed

section \<open>Claims about failures\<close>

text \<open>
  C9. A query that holds nothing but its \<open>PersonID\<close>, matched against a database in which every
  row has a \<open>PersonID\<close>, does not raise: every row is compared over no locus, ends with no
  consistent locus and is rejected, and the ranking is empty.
\<close>

theorem empty_query_loci:
  assumes "getitem q ''PersonID'' = Inr qid" and "loci_of q = []"
    and "\<forall>row\<in>set db. \<exists>cid. getitem row ''PersonID'' = Inr cid"
  shows "(\<forall>row\<in>set db. score_loci pf q row (loci_of q) init_tally = Inr init_tally \<and>
            score_candidate pf q qid (loci_of q) row = Inr None) \<and>
         match_single pf q db = Inr [] \<and>
         find_matches pf db [q] = Inr [\<lparr>query_id = qid, top_candidates = []\<rparr>]"
proof -
  have rows: "score_loci pf q row (loci_of q) init_tally = Inr init_tally \<and>
              score_candidate pf q qid (loci_of q) row = Inr None" if "row \<in> set db" for row
  proof -
    from assms(3) that obtain cid where "getitem row ''PersonID'' = Inr cid" by blast
    then show ?thesis
      by (simp add: assms(2) score_candidate_def admit_def init_tally_def)
  qed
  have scan: "scan_rows pf q qid [] rows [] = Inr []"
    if "\<forall>row\<in>set rows. score_candidate pf q qid [] row = Inr None" for rows
    using that by (induction rows) simp_all
  from rows have "scan_rows pf q qid (loci_of q) db [] = Inr []"
    by (simp add: assms(2) scan)
  with assms(1) have m: "match_single pf q db = Inr []"
    by (simp add: match_single_def)
  then have "find_matches pf db [q] = Inr [\<lparr>query_id = qid, top_candidates = []\<rparr>]"
    by (simp add: find_matches_def assms(1))
  with rows m show ?thesis by blast
qed

theorem empty_query_loci_witness:
  "score_candidate ex_float [(''PersonID'', ''Q0'')] ''Q0'' (loci_of [(''PersonID'', ''Q0'')]) ex_row
     = Inr None \<and>
   match_single ex_float [(''PersonID'', ''Q0'')] [ex_row, ex_profile ''P2'' ''abc'' ''12''] = Inr [] \<and>
   find_matches ex_float [ex_row, ex_profile ''P2'' ''abc'' ''12''] [[(''PersonID'', ''Q0'')]]
     = Inr [\<lparr>query_id = ''Q0'', top_candidates = []\<rparr>]"
proof -
  let ?q = "[(''PersonID'', ''Q0'')]"
  have a: "getitem ?q ''PersonID'' = Inr ''Q0''"
    by (simp add: getitem_def)
  have b: "loci_of ?q = []"
    by (simp add: loci_of_def)
  have c: "\<forall>row\<in>set [ex_row, ex_profile ''P2'' ''abc'' ''12'']. \<exists>cid. getitem row ''PersonID'' = Inr cid"
    by (simp add: ex_row_def ex_profile_id)
  from empty_query_loci [OF a b c, of ex_float] show ?thesis
    by simp
qed

text \<open>
  C2, as the code has it. Nothing catches the \<open>ValueError\<close> of \<open>float()\<close>. When a locus of
  the query holds a value that does not parse and some row of another person has a value at
  that locus, the comparison with that row raises, \<open>match_single\<close> raises with it and returns
  no ranking, and \<open>find_matches\<close> raises for every batch that holds the query.
\<close>

theorem parse_error_aborts_batch:
  assumes "getitem q ''PersonID'' = Inr qid" and "l \<in> set (loci_of q)"
    and "both_present q row l"
    and "parse_alleles pf (strip (get_default q l ''-'')) = Inl ValueError"
    and "row \<in> set db" and "getitem row ''PersonID'' = Inr cid" and "cid \<noteq> qid"
  shows "score_candidate pf q qid (loci_of q) row = Inl ValueError \<and>
         (\<exists>e. match_single pf q db = Inl e) \<and>
         (q \<in> set queries \<longrightarrow> (\<exists>e. find_matches pf db queries = Inl e))"
proof -
  have one: "score_locus pf q row l init_tally = Inl ValueError"
    using assms(3,4) by (simp add: score_locus_def both_present_def Let_def)
  from score_loci_raises [OF assms(2) one]
  have "score_loci pf q row (loci_of q) init_tally = Inl ValueError" .
  with assms(6,7) have sc: "score_candidate pf q qid (loci_of q) row = Inl ValueError"
    by (simp add: score_candidate_def)
  from scan_rows_raises [OF assms(5) sc] obtain e' where
    "scan_rows pf q qid (loci_of q) db [] = Inl e'" by blast
  with assms(1) have m: "match_single pf q db = Inl e'"
    by (simp add: match_single_def)
  have "\<exists>e. find_matches pf db queries = Inl e" if "q \<in> set queries"
    unfolding find_matches_def by (rule find_matches_loop_raises [OF that m])
  with sc m show ?thesis by blast
qed

theorem parse_error_aborts_batch_witness:
  "score_candidate ex_float (ex_profile ''Q2'' ''9,10'' ''abc'') ''Q2''
       (loci_of (ex_profile ''Q2'' ''9,10'' ''abc'')) ex_row = Inl ValueError \<and>
   match_single ex_float (ex_profile ''Q2'' ''9,10'' ''abc'')
       [ex_profile ''P2'' ''9,11'' ''-'', ex_row] = Inl ValueError \<and>
   find_matches ex_float [ex_profile ''P2'' ''9,11'' ''-'', ex_row]
       [ex_query, ex_profile ''Q2'' ''9,10'' ''abc''] = Inl ValueError"
proof -
  let ?q = "ex_profile ''Q2'' ''9,10'' ''abc''"
  let ?db = "[ex_profile ''P2'' ''9,11'' ''-'', ex_row]"
  have a: "getitem ?q ''PersonID'' = Inr ''Q2''"
    by (simp add: ex_profile_id)
  have b: "''L6'' \<in> set (loci_of ?q)"
    by (simp add: ex_profile_loci)
  have c: "both_present ?q ex_row ''L6''"
    by (simp add: both_present_def ex_row_def ex_profile_get strip_ex missing_def)
  have d: "parse_alleles ex_float (strip (get_default ?q ''L6'' ''-'')) = Inl ValueError"
    by (simp add: ex_profile_get strip_ex parse_ex)
  have e: "ex_row \<in> set ?db"
    by simp
  have f: "getitem ex_row ''PersonID'' = Inr ''P1''"
    by (simp add: ex_row_def ex_profile_id)
  have g: "''P1'' \<noteq> ''Q2''"
    by simp
  note w = parse_error_aborts_batch [OF a b c d e f g, of "[ex_query, ?q]"]
  have m: "match_single ex_float ?q ?db = Inl ValueError"
    by (simp add: ex_row_def match_single_ex ex_rows del: score_loci.simps)
  have q1: "match_single ex_float ex_query ?db
              = Inr [ex_candidate ''P2'', ex_candidate ''P1'']"
    by (simp add: ex_query_def ex_row_def match_single_ex ex_rows del: score_loci.simps)
  have qa: "getitem ex_query ''PersonID'' = Inr ''Q1''"
    by (simp add: ex_query_def ex_profile_id)
  have fm: "find_matches ex_float ?db [ex_query, ?q] = Inl ValueError"
    by (simp add: find_matches_def q1 m a qa)
  from w m fm show ?thesis by blast
qed

text \<open>
  C2, as the specification has it, fails: the query has the value \<open>abc\<close> at its sixth locus;
  the comparison with the first row raises; the second row, which has no value at that
  locus, alone yields a ranking of one entry, and a scan that went on after the first row
  would return it; \<open>match_single\<close> and \<open>find_matches\<close> raise instead.
\<close>

theorem parse_error_counterexample:
  "score_candidate ex_float (ex_profile ''Q2'' ''9,10'' ''abc'') ''Q2''
       (loci_of (ex_profile ''Q2'' ''9,10'' ''abc'')) ex_row = Inl ValueError \<and>
   survivors ex_float (ex_profile ''Q2'' ''9,10'' ''abc'') ''Q2''
       (loci_of (ex_profile ''Q2'' ''9,10'' ''abc'')) [ex_row, ex_profile ''P2'' ''9,11'' ''-'']
     = [ex_candidate ''P2''] \<and>
   match_single ex_float (ex_profile ''Q2'' ''9,10'' ''abc'') [ex_profile ''P2'' ''9,11'' ''-'']
     = Inr [ex_candidate ''P2''] \<and>
   match_single ex_float (ex_profile ''Q2'' ''9,10'' ''abc'')
       [ex_row, ex_profile ''P2'' ''9,11'' ''-''] = Inl ValueError \<and>
   match_single ex_float (ex_profile ''Q2'' ''9,10'' ''abc'')
       [ex_row, ex_profile ''P2'' ''9,11'' ''-'']
     \<noteq> Inr (take 10 (sort_key (\<lambda>x. rank (fneg (clr x)))
          (survivors ex_float (ex_profile ''Q2'' ''9,10'' ''abc'') ''Q2''
             (loci_of (ex_profile ''Q2'' ''9,10'' ''abc''))
             [ex_row, ex_profile ''P2'' ''9,11'' ''-'']))) \<and>
   find_matches ex_float [ex_row, ex_profile ''P2'' ''9,11'' ''-'']
       [ex_profile ''Q2'' ''9,10'' ''abc''] = Inl ValueError"
proof -
  let ?q = "ex_profile ''Q2'' ''9,10'' ''abc''"
  let ?db = "[ex_row, ex_profile ''P2'' ''9,11'' ''-'']"
  have a: "score_candidate ex_float ?q ''Q2'' (loci_of ?q) ex_row = Inl ValueError"
    by (simp add: ex_row_def ex_profile_loci ex_rows del: score_loci.simps)
  have b: "survivors ex_float ?q ''Q2'' (loci_of ?q) ?db = [ex_candidate ''P2'']"
    by (simp add: survivors_def ex_row_def ex_profile_loci ex_rows del: score_loci.simps)
  have c: "match_single ex_float ?q [ex_profile ''P2'' ''9,11'' ''-''] = Inr [ex_candidate ''P2'']"
    by (simp add: match_single_ex ex_rows del: score_loci.simps)
  have d: "match_single ex_float ?q ?db = Inl ValueError"
    by (simp add: ex_row_def match_single_ex ex_rows del: score_loci.simps)
  have e: "find_matches ex_float ?db [?q] = Inl ValueError"
    by (simp add: find_matches_def d ex_profile_id)
  from a b c d e show ?thesis
    by simp
qed

end
